theory Spec2Isabelle
  imports Complex_Main "HOL-Library.AList" "HOL-Library.Sublist"
begin

section \<open>The backup manager of fix\_project.py\<close>

text \<open>
  This theory embeds the class \<^verbatim>\<open>BackupManager\<close> of \<^verbatim>\<open>src/fix_project.py\<close>
  (lines 374 to 463): \<^verbatim>\<open>__init__\<close>, \<^verbatim>\<open>backup_file\<close>, \<^verbatim>\<open>_log_backup\<close>,
  \<^verbatim>\<open>restore_backup\<close>, \<^verbatim>\<open>list_backups\<close> and \<^verbatim>\<open>cleanup_old_backups\<close>.
  The methods work on the file system through \<^verbatim>\<open>pathlib\<close>, \<^verbatim>\<open>shutil\<close> and
  \<^verbatim>\<open>json\<close>, and read the clock through \<^verbatim>\<open>datetime.now()\<close>.  The file system is
  an explicit state that every method takes and returns; every clock reading is an
  explicit argument; every exception is a value, returned together with the state the
  method had reached when it was raised.

  What the model of the operating system leaves out: symbolic and hard links,
  permissions, the path components \<^verbatim>\<open>.\<close> and \<^verbatim>\<open>..\<close>, Windows drives, and input/output
  faults (disk full, interrupted copy).  Times are exact real numbers of seconds, where
  Python computes with floating point.
\<close>

subsection \<open>Paths (pathlib)\<close>

text \<open>
  A \<^verbatim>\<open>Path\<close> is its anchor (absolute or not) and its components.  \<open>Path True []\<close>
  is \<^verbatim>\<open>/\<close> and \<open>Path False []\<close> is \<^verbatim>\<open>.\<close>.
\<close>

datatype path = Path (is_absolute: bool) (parts: "string list")

datatype exn =
    ValueError
  | FileNotFoundError
  | FileExistsError
  | NotADirectoryError
  | IsADirectoryError
  | SameFileError
  | JSONDecodeError
  | OSError

text \<open>\<^verbatim>\<open>p.name\<close>: the last component, the empty string when there is none.\<close>

definition name :: "path \<Rightarrow> string" where
  "name p = (if parts p = [] then [] else last (parts p))"

text \<open>\<^verbatim>\<open>p.parent\<close>: the path without its last component; a path without components is its own parent.\<close>

definition parent :: "path \<Rightarrow> path" where
  "parent p = Path (is_absolute p) (butlast (parts p))"

text \<open>\<^verbatim>\<open>p / q\<close> for a path \<open>q\<close>: an absolute \<open>q\<close> replaces \<open>p\<close>.\<close>

definition joinpath :: "path \<Rightarrow> path \<Rightarrow> path" where
  "joinpath p q = (if is_absolute q then q else Path (is_absolute p) (parts p @ parts q))"

text \<open>
  \<^verbatim>\<open>p / s\<close> for a string \<open>s\<close> that holds no separator (here always a constant or built
  from a path component): the strings \<^verbatim>\<open>''\<close> and \<^verbatim>\<open>'.'\<close> add no component.
\<close>

definition join_name :: "path \<Rightarrow> string \<Rightarrow> path" where
  "join_name p s = (if s = [] \<or> s = ''.'' then p else Path (is_absolute p) (parts p @ [s]))"

text \<open>
  \<^verbatim>\<open>p.relative_to(other)\<close> is lexical: it raises \<^verbatim>\<open>ValueError\<close> unless both paths have
  the same anchor and the components of \<open>other\<close> start those of \<open>p\<close>.
\<close>

definition relative_to :: "path \<Rightarrow> path \<Rightarrow> exn + path" where
  "relative_to p other =
     (if is_absolute p = is_absolute other \<and> prefix (parts other) (parts p)
      then Inr (Path False (drop (length (parts other)) (parts p)))
      else Inl ValueError)"

fun join_sep :: "string list \<Rightarrow> string" where
  "join_sep [] = []"
| "join_sep [x] = x"
| "join_sep (x # y # ys) = x @ ''/'' @ join_sep (y # ys)"

text \<open>\<^verbatim>\<open>str(p)\<close>.\<close>

definition str :: "path \<Rightarrow> string" where
  "str p = (if is_absolute p then ''/'' @ join_sep (parts p)
            else if parts p = [] then ''.'' else join_sep (parts p))"

subsection \<open>Clock readings (datetime)\<close>

text \<open>A naive local \<^verbatim>\<open>datetime\<close>, as \<^verbatim>\<open>datetime.now()\<close> returns it.\<close>

record datetime =
  year :: nat
  month :: nat
  day :: nat
  hour :: nat
  minute :: nat
  second :: nat
  microsecond :: nat

definition valid_datetime :: "datetime \<Rightarrow> bool" where
  "valid_datetime d \<longleftrightarrow>
     1000 \<le> year d \<and> year d \<le> 9999 \<and> 1 \<le> month d \<and> month d \<le> 12 \<and>
     1 \<le> day d \<and> day d \<le> 31 \<and> hour d < 24 \<and> minute d < 60 \<and> second d < 60 \<and>
     microsecond d < 1000000"

definition digit :: "nat \<Rightarrow> char" where
  "digit n = ''0123456789'' ! (n mod 10)"

definition pad2 :: "nat \<Rightarrow> string" where
  "pad2 n = [digit (n div 10), digit n]"

definition pad4 :: "nat \<Rightarrow> string" where
  "pad4 n = [digit (n div 1000), digit (n div 100), digit (n div 10), digit n]"

definition pad6 :: "nat \<Rightarrow> string" where
  "pad6 n = [digit (n div 100000), digit (n div 10000), digit (n div 1000),
             digit (n div 100), digit (n div 10), digit n]"

text \<open>\<^verbatim>\<open>d.strftime("%Y%m%d_%H%M%S")\<close>.\<close>

definition strftime :: "datetime \<Rightarrow> string" where
  "strftime d = pad4 (year d) @ pad2 (month d) @ pad2 (day d) @ ''_'' @
                pad2 (hour d) @ pad2 (minute d) @ pad2 (second d)"

text \<open>\<^verbatim>\<open>d.isoformat()\<close>: the fraction is left out when the microsecond is zero.\<close>

definition isoformat :: "datetime \<Rightarrow> string" where
  "isoformat d = pad4 (year d) @ ''-'' @ pad2 (month d) @ ''-'' @ pad2 (day d) @ ''T'' @
                 pad2 (hour d) @ '':'' @ pad2 (minute d) @ '':'' @ pad2 (second d) @
                 (if microsecond d = 0 then [] else ''.'' @ pad6 (microsecond d))"

text \<open>
  The distance between two naive datetimes is the distance between their counts of
  microseconds since the start of year 1 (the proleptic Gregorian ordinal of the day,
  then the time of day), as the subtraction of \<^verbatim>\<open>datetime\<close> computes it.
\<close>

definition is_leap :: "nat \<Rightarrow> bool" where
  "is_leap y \<longleftrightarrow> y mod 4 = 0 \<and> (y mod 100 \<noteq> 0 \<or> y mod 400 = 0)"

definition days_before_year :: "nat \<Rightarrow> nat" where
  "days_before_year y = (y - 1) * 365 + (y - 1) div 4 - (y - 1) div 100 + (y - 1) div 400"

definition days_before_month :: "nat \<Rightarrow> nat \<Rightarrow> nat" where
  "days_before_month y m =
     [0, 0, 31, 59, 90, 120, 151, 181, 212, 243, 273, 304, 334] ! m +
     (if 2 < m \<and> is_leap y then 1 else 0)"

definition ymd2ord :: "nat \<Rightarrow> nat \<Rightarrow> nat \<Rightarrow> nat" where
  "ymd2ord y m d = days_before_year y + days_before_month y m + d"

definition to_microseconds :: "datetime \<Rightarrow> int" where
  "to_microseconds d =
     int ((((ymd2ord (year d) (month d) (day d) * 24 + hour d) * 60 + minute d) * 60
           + second d) * 1000000 + microsecond d)"

subsection \<open>Files, the backup log and Python values\<close>

text \<open>One object of the JSON array in \<^verbatim>\<open>backup_log.json\<close> (the key \<^verbatim>\<open>size\<close> is \<open>size_bytes\<close>).\<close>

record log_entry =
  timestamp :: string
  original :: string
  backup :: string
  reason :: string
  size_bytes :: nat

text \<open>
  The content of a file is either the text that \<^verbatim>\<open>json.dumps(log_data, indent=2,
  ensure_ascii=False)\<close> writes for a list of log entries, kept as that list, or any other
  text, which \<^verbatim>\<open>json.loads\<close> followed by \<^verbatim>\<open>append\<close> does not accept.  Strings are byte
  strings (UTF-8).
\<close>

datatype content = Text string | JsonDoc "log_entry list"

text \<open>A regular file with its content and modification time, or a directory.\<close>

datatype node = File content real | Dir

text \<open>
  The file system is a table from absolute paths (their components) to nodes.  The
  root directory always exists and has no entry of its own.
\<close>

type_synonym fs = "(string list \<times> node) list"

datatype pyval =
    PyNone
  | PyBool bool
  | PyInt int
  | PyPath path
  | PyDict log_entry
  | PyList "pyval list"

type_synonym 'a result = "fs \<times> (exn + 'a)"

subsubsection \<open>The bytes of a JSON document\<close>

function decimal :: "nat \<Rightarrow> string" where
  "decimal n = (if n < 10 then [digit n] else decimal (n div 10) @ [digit n])"
  by pat_completeness auto
termination
  by (relation "measure id") auto

declare decimal.simps [simp del]

definition hex_digit :: "nat \<Rightarrow> char" where
  "hex_digit n = ''0123456789abcdef'' ! (n mod 16)"

definition json_escape_char :: "char \<Rightarrow> string" where
  "json_escape_char c =
     (if c = CHR 0x22 then [CHR 0x5C, CHR 0x22]
      else if c = CHR 0x5C then [CHR 0x5C, CHR 0x5C]
      else if c = CHR 0x0A then [CHR 0x5C, CHR ''n'']
      else if c = CHR 0x0D then [CHR 0x5C, CHR ''r'']
      else if c = CHR 0x09 then [CHR 0x5C, CHR ''t'']
      else if c = CHR 0x08 then [CHR 0x5C, CHR ''b'']
      else if c = CHR 0x0C then [CHR 0x5C, CHR ''f'']
      else if (of_char c :: nat) < 32
        then [CHR 0x5C, CHR ''u'', CHR ''0'', CHR ''0'',
              hex_digit (of_char c div 16), hex_digit (of_char c)]
      else [c])"

definition json_string :: "string \<Rightarrow> string" where
  "json_string s = [CHR 0x22] @ concat (map json_escape_char s) @ [CHR 0x22]"

definition json_member :: "string \<Rightarrow> string \<Rightarrow> string" where
  "json_member k v = ''    '' @ json_string k @ '': '' @ v"

definition json_object :: "log_entry \<Rightarrow> string" where
  "json_object e =
     ''{'' @ [CHR 0x0A] @
     json_member ''timestamp'' (json_string (timestamp e)) @ '','' @ [CHR 0x0A] @
     json_member ''original'' (json_string (original e)) @ '','' @ [CHR 0x0A] @
     json_member ''backup'' (json_string (backup e)) @ '','' @ [CHR 0x0A] @
     json_member ''reason'' (json_string (reason e)) @ '','' @ [CHR 0x0A] @
     json_member ''size'' (decimal (size_bytes e)) @ [CHR 0x0A] @ ''  }''"

fun json_items :: "log_entry list \<Rightarrow> string" where
  "json_items [] = []"
| "json_items [e] = ''  '' @ json_object e"
| "json_items (e # e' # es) = ''  '' @ json_object e @ '','' @ [CHR 0x0A] @ json_items (e' # es)"

text \<open>\<^verbatim>\<open>json.dumps(log_data, indent=2, ensure_ascii=False)\<close>.\<close>

definition json_dumps :: "log_entry list \<Rightarrow> string" where
  "json_dumps es = (if es = [] then ''[]'' else ''['' @ [CHR 0x0A] @ json_items es @ [CHR 0x0A] @ '']'')"

definition bytes_of :: "content \<Rightarrow> string" where
  "bytes_of c = (case c of Text s \<Rightarrow> s | JsonDoc es \<Rightarrow> json_dumps es)"

subsubsection \<open>System calls\<close>

definition resolve :: "string list \<Rightarrow> path \<Rightarrow> string list" where
  "resolve cwd p = (if is_absolute p then parts p else cwd @ parts p)"

definition lookup :: "fs \<Rightarrow> string list \<Rightarrow> node option" where
  "lookup fs ps = (if ps = [] then Some Dir else map_of fs ps)"

definition is_dir :: "fs \<Rightarrow> string list \<Rightarrow> bool" where
  "is_dir fs ps \<longleftrightarrow> lookup fs ps = Some Dir"

definition is_file :: "fs \<Rightarrow> string list \<Rightarrow> bool" where
  "is_file fs ps \<longleftrightarrow> (case lookup fs ps of Some (File c t) \<Rightarrow> True | _ \<Rightarrow> False)"

text \<open>\<^verbatim>\<open>p.exists()\<close>.\<close>

definition exists :: "string list \<Rightarrow> fs \<Rightarrow> path \<Rightarrow> bool" where
  "exists cwd fs p \<longleftrightarrow> lookup fs (resolve cwd p) \<noteq> None"

text \<open>\<^verbatim>\<open>os.mkdir\<close>: the path must be new and its parent a directory.\<close>

definition os_mkdir :: "fs \<Rightarrow> string list \<Rightarrow> unit result" where
  "os_mkdir fs ps =
     (if lookup fs ps \<noteq> None then (fs, Inl FileExistsError)
      else case lookup fs (butlast ps) of
             None \<Rightarrow> (fs, Inl FileNotFoundError)
           | Some (File c t) \<Rightarrow> (fs, Inl NotADirectoryError)
           | Some Dir \<Rightarrow> (AList.update ps Dir fs, Inr ()))"

text \<open>
  \<^verbatim>\<open>p.mkdir(exist_ok=True)\<close>: an error of \<^verbatim>\<open>os.mkdir\<close> other than a missing parent
  is dropped when the path is a directory.
\<close>

definition mkdir_exist_ok :: "fs \<Rightarrow> string list \<Rightarrow> unit result" where
  "mkdir_exist_ok fs ps =
     (case os_mkdir fs ps of
        (fs', Inr u) \<Rightarrow> (fs', Inr u)
      | (fs', Inl e) \<Rightarrow>
          if e = FileNotFoundError then (fs', Inl e)
          else if is_dir fs' ps then (fs', Inr ()) else (fs', Inl e))"

text \<open>
  \<^verbatim>\<open>p.mkdir(parents=True, exist_ok=True)\<close>, as pathlib writes it: when the parent is
  missing, make the parent the same way, then the path itself.
\<close>

function mkdir_parents :: "fs \<Rightarrow> string list \<Rightarrow> unit result" where
  "mkdir_parents fs ps =
     (case os_mkdir fs ps of
        (fs', Inr u) \<Rightarrow> (fs', Inr u)
      | (fs', Inl e) \<Rightarrow>
          if e = FileNotFoundError then
            (if ps = [] then (fs', Inl e)
             else case mkdir_parents fs (butlast ps) of
                    (fs1, Inl e1) \<Rightarrow> (fs1, Inl e1)
                  | (fs1, Inr u) \<Rightarrow> mkdir_exist_ok fs1 ps)
          else if is_dir fs' ps then (fs', Inr ()) else (fs', Inl e))"
  by pat_completeness auto
termination
  by (relation "measure (\<lambda>(fs, ps). length ps)") auto

declare mkdir_parents.simps [simp del]

text \<open>
  \<^verbatim>\<open>shutil.copy2(src, dst)\<close>: a destination that is a directory stands for the entry
  named like the source inside it; the copy has the content and the modification time
  of the source.
\<close>

definition copy_dest :: "fs \<Rightarrow> string list \<Rightarrow> string list \<Rightarrow> string list" where
  "copy_dest fs src dst = (if is_dir fs dst then dst @ [if src = [] then [] else last src] else dst)"

definition copy2 :: "fs \<Rightarrow> string list \<Rightarrow> string list \<Rightarrow> unit result" where
  "copy2 fs src dst =
     (let dst' = copy_dest fs src dst in
      if dst' = src \<and> lookup fs src \<noteq> None then (fs, Inl SameFileError)
      else case lookup fs src of
             None \<Rightarrow> (fs, Inl FileNotFoundError)
           | Some Dir \<Rightarrow> (fs, Inl IsADirectoryError)
           | Some (File c t) \<Rightarrow>
               (case lookup fs dst' of
                  Some Dir \<Rightarrow> (fs, Inl IsADirectoryError)
                | _ \<Rightarrow>
                  (case lookup fs (butlast dst') of
                     None \<Rightarrow> (fs, Inl FileNotFoundError)
                   | Some (File c' t') \<Rightarrow> (fs, Inl NotADirectoryError)
                   | Some Dir \<Rightarrow> (AList.update dst' (File c t) fs, Inr ()))))"

text \<open>\<^verbatim>\<open>p.read_text()\<close> and \<^verbatim>\<open>p.write_text(data)\<close>; the write happens at time \<open>t\<close>.\<close>

definition read_text :: "fs \<Rightarrow> string list \<Rightarrow> exn + content" where
  "read_text fs ps =
     (case lookup fs ps of
        None \<Rightarrow> Inl FileNotFoundError
      | Some Dir \<Rightarrow> Inl IsADirectoryError
      | Some (File c t) \<Rightarrow> Inr c)"

definition write_text :: "fs \<Rightarrow> real \<Rightarrow> string list \<Rightarrow> content \<Rightarrow> unit result" where
  "write_text fs t ps c =
     (case lookup fs ps of
        Some Dir \<Rightarrow> (fs, Inl IsADirectoryError)
      | _ \<Rightarrow>
        (case lookup fs (butlast ps) of
           None \<Rightarrow> (fs, Inl FileNotFoundError)
         | Some (File c' t') \<Rightarrow> (fs, Inl NotADirectoryError)
         | Some Dir \<Rightarrow> (AList.update ps (File c t) fs, Inr ())))"

text \<open>\<^verbatim>\<open>json.loads(text)\<close> of a file content, for a value that is then appended to.\<close>

definition json_loads :: "content \<Rightarrow> exn + log_entry list" where
  "json_loads c = (case c of Text s \<Rightarrow> Inl JSONDecodeError | JsonDoc es \<Rightarrow> Inr es)"

text \<open>
  \<^verbatim>\<open>p.stat().st_size\<close>.  The size that the system reports for a directory is not
  modelled (it is 0 here); \<^verbatim>\<open>_log_backup\<close> asks for the size of a path only after
  \<^verbatim>\<open>copy2\<close> has read it as a regular file.
\<close>

definition st_size :: "fs \<Rightarrow> string list \<Rightarrow> exn + nat" where
  "st_size fs ps =
     (case lookup fs ps of
        None \<Rightarrow> Inl FileNotFoundError
      | Some Dir \<Rightarrow> Inr 0
      | Some (File c t) \<Rightarrow> Inr (length (bytes_of c)))"

text \<open>\<^verbatim>\<open>p.unlink()\<close>.\<close>

definition unlink :: "fs \<Rightarrow> string list \<Rightarrow> unit result" where
  "unlink fs ps =
     (case lookup fs ps of
        None \<Rightarrow> (fs, Inl FileNotFoundError)
      | Some Dir \<Rightarrow> (fs, Inl IsADirectoryError)
      | Some (File c t) \<Rightarrow> (AList.delete ps fs, Inr ()))"

text \<open>The paths of the table, each once.\<close>

definition paths :: "fs \<Rightarrow> string list list" where
  "paths fs = remdups (map fst fs)"

text \<open>\<^verbatim>\<open>p.iterdir()\<close> of a directory: its direct entries.\<close>

definition iterdir :: "fs \<Rightarrow> string list \<Rightarrow> string list list" where
  "iterdir fs ps = filter (\<lambda>q. q \<noteq> [] \<and> butlast q = ps) (paths fs)"

text \<open>Everything below a directory: what \<^verbatim>\<open>p.rglob\<close> walks through.\<close>

definition walk :: "fs \<Rightarrow> string list \<Rightarrow> string list list" where
  "walk fs ps = (if is_dir fs ps then filter (\<lambda>q. strict_prefix ps q) (paths fs) else [])"

text \<open>
  \<^verbatim>\<open>p.stat().st_mtime\<close>.  The table keeps no modification time for directories:
  the time that the system reports for a directory is the argument \<open>dir_mtime\<close>, about
  which nothing is assumed.
\<close>

definition st_mtime :: "(string list \<Rightarrow> real) \<Rightarrow> fs \<Rightarrow> string list \<Rightarrow> exn + real" where
  "st_mtime dir_mtime fs ps =
     (case lookup fs ps of
        None \<Rightarrow> Inl FileNotFoundError
      | Some Dir \<Rightarrow> Inr (dir_mtime ps)
      | Some (File c t) \<Rightarrow> Inr t)"

text \<open>\<^verbatim>\<open>p.rmdir()\<close>: only an empty directory can be removed.\<close>

definition rmdir :: "fs \<Rightarrow> string list \<Rightarrow> unit result" where
  "rmdir fs ps =
     (case lookup fs ps of
        None \<Rightarrow> (fs, Inl FileNotFoundError)
      | Some (File c t) \<Rightarrow> (fs, Inl NotADirectoryError)
      | Some Dir \<Rightarrow> if ps = [] \<or> iterdir fs ps \<noteq> [] then (fs, Inl OSError)
                    else (AList.delete ps fs, Inr ()))"

text \<open>\<^verbatim>\<open>fnmatch\<close> of a file name against \<^verbatim>\<open>*.backup.*\<close>.\<close>

definition fnmatch_backup :: "string \<Rightarrow> bool" where
  "fnmatch_backup n \<longleftrightarrow> sublist ''.backup.'' n"

text \<open>\<^verbatim>\<open>s.split(sep)[0]\<close> for a separator that is not empty.\<close>

fun split_head :: "string \<Rightarrow> string \<Rightarrow> string" where
  "split_head sep [] = []"
| "split_head sep (c # cs) = (if prefix sep (c # cs) then [] else c # split_head sep cs)"

text \<open>Sequencing: an exception ends the method with the state reached so far.\<close>

definition and_then :: "'a result \<Rightarrow> (fs \<Rightarrow> 'a \<Rightarrow> 'b result) \<Rightarrow> 'b result" where
  "and_then r f = (case r of (fs, Inl e) \<Rightarrow> (fs, Inl e) | (fs, Inr v) \<Rightarrow> f fs v)"

subsection \<open>BackupManager\<close>

text \<open>
  The manager holds \<^verbatim>\<open>project_root\<close>; \<^verbatim>\<open>backup_dir\<close> and \<^verbatim>\<open>backup_log\<close> are
  computed from it in \<^verbatim>\<open>__init__\<close> and never assigned again.  In every method below
  \<open>cwd\<close> is the working directory of the process, against which the system resolves
  a relative path, and \<open>project_root\<close> is \<^verbatim>\<open>self.project_root\<close>.
\<close>

definition backup_dir :: "path \<Rightarrow> path" where
  "backup_dir project_root = join_name project_root ''.config_backup''"

definition backup_log :: "path \<Rightarrow> path" where
  "backup_log project_root = join_name (backup_dir project_root) ''backup_log.json''"

text \<open>\<^verbatim>\<open>__init__\<close>; \<open>t\<close> is the time at which the empty log is written.\<close>

definition init :: "string list \<Rightarrow> path \<Rightarrow> fs \<Rightarrow> real \<Rightarrow> unit result" where
  "init cwd project_root fs t =
     and_then (mkdir_exist_ok fs (resolve cwd (backup_dir project_root))) (\<lambda>fs1 u.
       if \<not> exists cwd fs1 (backup_log project_root)
       then write_text fs1 t (resolve cwd (backup_log project_root)) (JsonDoc [])
       else (fs1, Inr ()))"

text \<open>
  \<^verbatim>\<open>_log_backup\<close>; \<open>now\<close> is the reading of \<^verbatim>\<open>datetime.now()\<close> on line 413 and \<open>t\<close>
  the time at which the log is written again.
\<close>

definition log_backup ::
  "string list \<Rightarrow> path \<Rightarrow> fs \<Rightarrow> datetime \<Rightarrow> real \<Rightarrow> path \<Rightarrow> path \<Rightarrow> string \<Rightarrow> unit result" where
  "log_backup cwd project_root fs now t original_path backup_path reason_text =
     (case read_text fs (resolve cwd (backup_log project_root)) of
        Inl e \<Rightarrow> (fs, Inl e)
      | Inr text \<Rightarrow>
     (case json_loads text of
        Inl e \<Rightarrow> (fs, Inl e)
      | Inr log_data \<Rightarrow>
     (case relative_to original_path project_root of
        Inl e \<Rightarrow> (fs, Inl e)
      | Inr original_rel \<Rightarrow>
     (case relative_to backup_path project_root of
        Inl e \<Rightarrow> (fs, Inl e)
      | Inr backup_rel \<Rightarrow>
     (case st_size fs (resolve cwd original_path) of
        Inl e \<Rightarrow> (fs, Inl e)
      | Inr n \<Rightarrow>
          write_text fs t (resolve cwd (backup_log project_root))
            (JsonDoc (log_data @
               [\<lparr>timestamp = isoformat now, original = str original_rel,
                 backup = str backup_rel, reason = reason_text, size_bytes = n\<rparr>])))))))"

text \<open>
  The path that \<^verbatim>\<open>backup_file\<close> computes on lines 393 to 398 for a path relative to the
  project root.
\<close>

definition backup_path_of :: "path \<Rightarrow> path \<Rightarrow> string \<Rightarrow> path" where
  "backup_path_of project_root relative_path stamp =
     join_name (joinpath (backup_dir project_root) (parent relative_path))
       (name relative_path @ ''.backup.'' @ stamp)"

text \<open>
  \<^verbatim>\<open>backup_file\<close>; \<open>now\<close> is the reading of \<^verbatim>\<open>datetime.now()\<close> on line 393, \<open>now_log\<close>
  the one inside \<^verbatim>\<open>_log_backup\<close>, \<open>t\<close> the time at which the log is written.
\<close>

definition backup_file ::
  "string list \<Rightarrow> path \<Rightarrow> fs \<Rightarrow> datetime \<Rightarrow> datetime \<Rightarrow> real \<Rightarrow> path \<Rightarrow> string \<Rightarrow> pyval result" where
  "backup_file cwd project_root fs now now_log t file_path reason_text =
     (if \<not> exists cwd fs file_path then (fs, Inr PyNone)
      else
        (case relative_to file_path project_root of
           Inl e \<Rightarrow> (fs, Inl e)
         | Inr relative_path \<Rightarrow>
             (let backup_path = backup_path_of project_root relative_path (strftime now) in
              and_then (mkdir_parents fs (resolve cwd (parent backup_path))) (\<lambda>fs1 u.
              and_then (copy2 fs1 (resolve cwd file_path) (resolve cwd backup_path)) (\<lambda>fs2 u.
              and_then (log_backup cwd project_root fs2 now_log t file_path backup_path reason_text) (\<lambda>fs3 u.
                (fs3, Inr (PyPath backup_path))))))))"

text \<open>
  The target that \<^verbatim>\<open>restore_backup\<close> computes on lines 429 and 430 when none is given.
\<close>

definition default_target :: "path \<Rightarrow> path" where
  "default_target backup_path =
     join_name (parent (parent backup_path)) (split_head ''.backup.'' (name backup_path))"

text \<open>
  \<^verbatim>\<open>restore_backup\<close>.  The last step is the \<^verbatim>\<open>print\<close> of line 438, whose argument
  \<^verbatim>\<open>target_path.relative_to(self.project_root)\<close> can raise after the copy is made.
\<close>

definition restore_backup ::
  "string list \<Rightarrow> path \<Rightarrow> fs \<Rightarrow> path \<Rightarrow> path option \<Rightarrow> pyval result" where
  "restore_backup cwd project_root fs backup_path target_path =
     (if \<not> exists cwd fs backup_path then (fs, Inr (PyBool False))
      else
        (let target = (case target_path of None \<Rightarrow> default_target backup_path | Some p \<Rightarrow> p) in
         and_then (mkdir_parents fs (resolve cwd (parent target))) (\<lambda>fs1 u.
         and_then (copy2 fs1 (resolve cwd backup_path) (resolve cwd target)) (\<lambda>fs2 u.
           (case relative_to target project_root of
              Inl e \<Rightarrow> (fs2, Inl e)
            | Inr shown \<Rightarrow> (fs2, Inr (PyBool True)))))))"

text \<open>\<^verbatim>\<open>list_backups\<close>.\<close>

definition list_backups :: "string list \<Rightarrow> path \<Rightarrow> fs \<Rightarrow> exn + pyval" where
  "list_backups cwd project_root fs =
     (if exists cwd fs (backup_log project_root) then
        (case read_text fs (resolve cwd (backup_log project_root)) of
           Inl e \<Rightarrow> Inl e
         | Inr text \<Rightarrow>
             (case json_loads text of Inl e \<Rightarrow> Inl e | Inr es \<Rightarrow> Inr (PyList (map PyDict es))))
      else Inr (PyList []))"

text \<open>
  The first loop of \<^verbatim>\<open>cleanup_old_backups\<close> (lines 451 to 453) over the paths that
  \<^verbatim>\<open>rglob("*.backup.*")\<close> yields.
\<close>

fun unlink_old :: "(string list \<Rightarrow> real) \<Rightarrow> real \<Rightarrow> string list list \<Rightarrow> fs \<Rightarrow> unit result" where
  "unlink_old dir_mtime cutoff_time [] fs = (fs, Inr ())"
| "unlink_old dir_mtime cutoff_time (p # ps) fs =
     (case st_mtime dir_mtime fs p of
        Inl e \<Rightarrow> (fs, Inl e)
      | Inr m \<Rightarrow>
          if m < cutoff_time
          then and_then (unlink fs p) (\<lambda>fs' u. unlink_old dir_mtime cutoff_time ps fs')
          else unlink_old dir_mtime cutoff_time ps fs)"

text \<open>
  The body of the second loop (lines 457 to 461): every exception of \<^verbatim>\<open>iterdir\<close> and
  \<^verbatim>\<open>rmdir\<close> is caught and dropped.
\<close>

definition remove_if_empty :: "fs \<Rightarrow> string list \<Rightarrow> fs" where
  "remove_if_empty fs d =
     (if \<not> is_dir fs d then fs
      else if iterdir fs d \<noteq> [] then fs
      else fst (rmdir fs d))"

fun remove_empty_dirs :: "string list list \<Rightarrow> fs \<Rightarrow> fs" where
  "remove_empty_dirs [] fs = fs"
| "remove_empty_dirs (d # ds) fs = remove_empty_dirs ds (remove_if_empty fs d)"

text \<open>
  \<^verbatim>\<open>rglob("*.backup.*")\<close> and \<^verbatim>\<open>rglob("*/")\<close> from the backup directory; the second is
  sorted by the number of components, longest first, as
  \<^verbatim>\<open>sorted(..., key=lambda x: len(x.parts), reverse=True)\<close> does.
\<close>

definition rglob_backups :: "fs \<Rightarrow> string list \<Rightarrow> string list list" where
  "rglob_backups fs d = filter (\<lambda>p. fnmatch_backup (last p)) (walk fs d)"

definition rglob_dirs :: "fs \<Rightarrow> string list \<Rightarrow> string list list" where
  "rglob_dirs fs d = filter (is_dir fs) (walk fs d)"

text \<open>
  \<^verbatim>\<open>cleanup_old_backups\<close>; \<open>now_ts\<close> is \<^verbatim>\<open>datetime.now().timestamp()\<close>.  The method
  has no \<^verbatim>\<open>return\<close> statement.
\<close>

definition cleanup_old_backups ::
  "string list \<Rightarrow> path \<Rightarrow> fs \<Rightarrow> real \<Rightarrow> (string list \<Rightarrow> real) \<Rightarrow> int \<Rightarrow> pyval result" where
  "cleanup_old_backups cwd project_root fs now_ts dir_mtime keep_days =
     (let cutoff_time = now_ts - of_int (keep_days * 24 * 60 * 60);
          start = resolve cwd (backup_dir project_root) in
      and_then (unlink_old dir_mtime cutoff_time (rglob_backups fs start) fs) (\<lambda>fs1 u.
        (remove_empty_dirs (sort_key (\<lambda>p. - int (length p)) (rglob_dirs fs1 start)) fs1,
         Inr PyNone)))"

subsection \<open>Notions used to state the properties\<close>

text \<open>
  The records of the Backup Log: what \<^verbatim>\<open>json.loads(self.backup_log.read_text())\<close>
  gives, \<open>None\<close> when the log file is missing or is not such a document.
\<close>

definition log_records :: "string list \<Rightarrow> path \<Rightarrow> fs \<Rightarrow> log_entry list option" where
  "log_records cwd project_root fs =
     (case read_text fs (resolve cwd (backup_log project_root)) of
        Inl e \<Rightarrow> None
      | Inr text \<Rightarrow> (case json_loads text of Inl e \<Rightarrow> None | Inr es \<Rightarrow> Some es))"

definition log_length :: "string list \<Rightarrow> path \<Rightarrow> fs \<Rightarrow> nat" where
  "log_length cwd project_root fs =
     (case log_records cwd project_root fs of None \<Rightarrow> 0 | Some es \<Rightarrow> length es)"

text \<open>
  The state that \<^verbatim>\<open>__init__\<close> leaves: the backup directory is a directory and the log
  is a readable document.
\<close>

definition initialised :: "string list \<Rightarrow> path \<Rightarrow> fs \<Rightarrow> bool" where
  "initialised cwd project_root fs \<longleftrightarrow>
     is_dir fs (resolve cwd (backup_dir project_root)) \<and> log_records cwd project_root fs \<noteq> None"

text \<open>
  A path that \<^verbatim>\<open>backup_file\<close> can store with the stamp \<open>stamp\<close>: it is lexically below
  the project root and a regular file, no regular file lies on the way to the directory
  that mirrors its directory, and no directory has the name of the stored copy.
\<close>

definition capturable :: "string list \<Rightarrow> path \<Rightarrow> fs \<Rightarrow> path \<Rightarrow> string \<Rightarrow> bool" where
  "capturable cwd project_root fs file_path stamp \<longleftrightarrow>
     (case relative_to file_path project_root of
        Inl e \<Rightarrow> False
      | Inr relative_path \<Rightarrow>
          (let backup_path = backup_path_of project_root relative_path stamp in
           is_file fs (resolve cwd file_path) \<and>
           list_all (\<lambda>q. \<not> is_file fs q) (prefixes (resolve cwd (parent backup_path))) \<and>
           \<not> is_dir fs (resolve cwd backup_path)))"


text \<open>
  A sequence of calls of \<^verbatim>\<open>backup_file\<close>, each with its clock readings, its path and its
  reason; the caller goes on after a call that raised.
\<close>

fun run_captures ::
  "string list \<Rightarrow> path \<Rightarrow> fs \<Rightarrow> (datetime \<times> datetime \<times> real \<times> path \<times> string) list \<Rightarrow> fs" where
  "run_captures cwd project_root fs [] = fs"
| "run_captures cwd project_root fs ((now, now_log, t, file_path, reason_text) # calls) =
     run_captures cwd project_root
       (fst (backup_file cwd project_root fs now now_log t file_path reason_text)) calls"


text \<open>A regular file whose modification time is older than the cutoff.\<close>

definition expired :: "real \<Rightarrow> fs \<Rightarrow> string list \<Rightarrow> bool" where
  "expired cutoff_time fs p \<longleftrightarrow>
     (case lookup fs p of Some (File c t) \<Rightarrow> t < cutoff_time | _ \<Rightarrow> False)"

text \<open>The number of regular files of \<open>fs\<close> that are no longer regular files in \<open>fs'\<close>.\<close>

definition files_removed :: "fs \<Rightarrow> fs \<Rightarrow> nat" where
  "files_removed fs fs' = length (filter (\<lambda>p. is_file fs p \<and> \<not> is_file fs' p) (paths fs))"

text \<open>Two clock readings in the same second of the same day.\<close>

definition same_second :: "datetime \<Rightarrow> datetime \<Rightarrow> bool" where
  "same_second a b \<longleftrightarrow>
     year a = year b \<and> month a = month b \<and> day a = day b \<and>
     hour a = hour b \<and> minute a = minute b \<and> second a = second b"

subsection \<open>A project used for the concrete cases\<close>

text \<open>
  The project \<^verbatim>\<open>/proj\<close> with the file \<^verbatim>\<open>config/build.gradle.kts\<close>, after \<^verbatim>\<open>__init__\<close>
  has made the backup directory and the empty log; the process runs in \<^verbatim>\<open>/proj\<close>.
\<close>

definition example_root :: path where
  "example_root = Path True [''proj'']"

definition example_cwd :: "string list" where
  "example_cwd = [''proj'']"

definition example_file :: path where
  "example_file = Path True [''proj'', ''config'', ''build.gradle.kts'']"

definition example_store :: fs where
  "example_store =
     [([''proj''], Dir),
      ([''proj'', ''config''], Dir),
      ([''proj'', ''config'', ''build.gradle.kts''], File (Text ''plugins {}'') 100),
      ([''proj'', ''.config_backup''], Dir),
      ([''proj'', ''.config_backup'', ''backup_log.json''], File (JsonDoc []) 1000)]"

definition example_now :: datetime where
  "example_now =
     \<lparr>year = 2024, month = 1, day = 1, hour = 10, minute = 0, second = 0, microsecond = 0\<rparr>"

definition example_backup :: path where
  "example_backup =
     Path True [''proj'', ''.config_backup'', ''config'', ''build.gradle.kts.backup.20240101_100000'']"


definition example_same :: datetime where
  "example_same =
     \<lparr>year = 2024, month = 1, day = 1, hour = 10, minute = 0, second = 0, microsecond = 250000\<rparr>"

definition example_entry :: log_entry where
  "example_entry =
     \<lparr>timestamp = ''2024-01-01T10:00:00'', original = ''config/build.gradle.kts'',
       backup = ''.config_backup/config/build.gradle.kts.backup.20240101_100000'',
       reason = ''pre-fix'', size_bytes = 10\<rparr>"


text \<open>
  A store with two copies, last modified at the times 50 and 60 (seconds).  With seven
  days kept, the clock reading 604860 puts the cutoff at 60 and the reading 604861, one
  second later, at 61.
\<close>

definition example_aged :: fs where
  "example_aged =
     [([''proj''], Dir),
      ([''proj'', ''.config_backup''], Dir),
      ([''proj'', ''.config_backup'', ''backup_log.json''], File (JsonDoc [example_entry]) 1001),
      ([''proj'', ''.config_backup'', ''config''], Dir),
      ([''proj'', ''.config_backup'', ''config'', ''build.gradle.kts.backup.20240101_100000''],
       File (Text ''plugins {}'') 50),
      ([''proj'', ''.config_backup'', ''config'', ''build.gradle.kts.backup.20240102_100000''],
       File (Text ''plugins { }'') 60)]"

definition example_dir_mtime :: "string list \<Rightarrow> real" where
  "example_dir_mtime p = 1001"

section \<open>Facts about the system calls and the paths\<close>

lemma lookup_Nil: "lookup fs [] = Some Dir"
  by (simp add: lookup_def)

lemma lookup_update:
  "lookup (AList.update k v fs) q = (if q = [] then Some Dir else if q = k then Some v else lookup fs q)"
  by (simp add: lookup_def update_conv')

lemma lookup_delete:
  "lookup (AList.delete k fs) q = (if q = [] then Some Dir else if q = k then None else lookup fs q)"
  by (simp add: lookup_def delete_conv')

lemma os_mkdir_keep:
  "lookup fs q = Some n \<Longrightarrow> lookup (fst (os_mkdir fs ps)) q = Some n"
  by (auto simp: os_mkdir_def lookup_update lookup_Nil split: option.splits node.splits)

lemma os_mkdir_new:
  "lookup (fst (os_mkdir fs ps)) q = Some n \<Longrightarrow> lookup fs q = Some n \<or> (n = Dir \<and> q = ps)"
  by (auto simp: os_mkdir_def lookup_update lookup_Nil split: option.splits node.splits if_splits)

lemma mkdir_exist_ok_keep:
  "lookup fs q = Some n \<Longrightarrow> lookup (fst (mkdir_exist_ok fs ps)) q = Some n"
  using os_mkdir_keep [of fs q n ps]
  by (auto simp: mkdir_exist_ok_def split: prod.splits sum.splits)

lemma mkdir_exist_ok_new:
  "lookup (fst (mkdir_exist_ok fs ps)) q = Some n \<Longrightarrow> lookup fs q = Some n \<or> (n = Dir \<and> q = ps)"
  using os_mkdir_new [of fs ps q n]
  by (auto simp: mkdir_exist_ok_def split: prod.splits sum.splits if_splits)

lemma os_mkdir_fail_same: "os_mkdir fs ps = (fs', Inl e) \<Longrightarrow> fs' = fs"
  by (auto simp: os_mkdir_def split: option.splits node.splits if_splits)

lemma mkdir_parents_keep:
  "lookup fs q = Some n \<Longrightarrow> lookup (fst (mkdir_parents fs ps)) q = Some n"
proof (induction fs ps rule: mkdir_parents.induct)
  case (1 fs ps)
  show ?case
  proof (cases "os_mkdir fs ps")
    case (Pair fs' r)
    show ?thesis
    proof (cases r)
      case (Inr u)
      with Pair os_mkdir_keep [OF "1.prems", of ps] show ?thesis
        by (simp add: mkdir_parents.simps [of fs ps])
    next
      case (Inl e)
      with Pair have same: "fs' = fs" by (simp add: os_mkdir_fail_same)
      show ?thesis
      proof (cases "e = FileNotFoundError \<and> ps \<noteq> []")
        case False
        with Pair Inl same "1.prems" show ?thesis
          by (auto simp: mkdir_parents.simps [of fs ps])
      next
        case True
        obtain fs1 r1 where p: "mkdir_parents fs (butlast ps) = (fs1, r1)" by force
        from "1.IH" [OF Pair [symmetric] Inl _ _ "1.prems"] True p
        have k: "lookup fs1 q = Some n" by simp
        show ?thesis
          using Pair Inl True p k mkdir_exist_ok_keep [OF k, of ps]
          by (auto simp: mkdir_parents.simps [of fs ps] split: sum.splits)
      qed
    qed
  qed
qed

lemma mkdir_parents_new:
  "lookup (fst (mkdir_parents fs ps)) q = Some n \<Longrightarrow>
     lookup fs q = Some n \<or> (n = Dir \<and> prefix q ps)"
proof (induction fs ps arbitrary: rule: mkdir_parents.induct)
  case (1 fs ps)
  show ?case
  proof (cases "os_mkdir fs ps")
    case (Pair fs' r)
    show ?thesis
    proof (cases r)
      case (Inr u)
      with Pair "1.prems" os_mkdir_new [of fs ps q n] show ?thesis
        by (auto simp: mkdir_parents.simps [of fs ps])
    next
      case (Inl e)
      with Pair have same: "fs' = fs" by (simp add: os_mkdir_fail_same)
      show ?thesis
      proof (cases "e = FileNotFoundError \<and> ps \<noteq> []")
        case False
        with Pair Inl same "1.prems" show ?thesis
          by (auto simp: mkdir_parents.simps [of fs ps] split: if_splits)
      next
        case True
        obtain fs1 r1 where p: "mkdir_parents fs (butlast ps) = (fs1, r1)" by force
        have pre: "prefix (butlast ps) ps" by (simp add: prefixeq_butlast)
        have ih: "lookup fs1 q = Some n \<Longrightarrow> lookup fs q = Some n \<or> (n = Dir \<and> prefix q ps)"
          using "1.IH" [OF Pair [symmetric] Inl _ _ ] True p pre
          by (auto dest: prefix_order.trans)
        show ?thesis
        proof (cases r1)
          case (Inl e1)
          with Pair \<open>r = Inl e\<close> True p "1.prems" ih show ?thesis
            by (auto simp: mkdir_parents.simps [of fs ps])
        next
          case (Inr u)
          with Pair \<open>r = Inl e\<close> True p "1.prems"
          have "lookup (fst (mkdir_exist_ok fs1 ps)) q = Some n"
            by (auto simp: mkdir_parents.simps [of fs ps])
          from mkdir_exist_ok_new [OF this] ih show ?thesis by auto
        qed
      qed
    qed
  qed
qed


lemma mkdir_exist_ok_fail_same: "mkdir_exist_ok fs ps = (fs', Inl e) \<Longrightarrow> fs' = fs"
  by (auto simp: mkdir_exist_ok_def split: prod.splits sum.splits if_splits dest: os_mkdir_fail_same)

lemma is_dir_not_file: "is_dir fs q \<Longrightarrow> \<not> is_file fs q"
  by (simp add: is_dir_def is_file_def)

lemma os_mkdir_ok_dir: "os_mkdir fs ps = (fs', Inr u) \<Longrightarrow> is_dir fs' ps"
  by (auto simp: os_mkdir_def is_dir_def lookup_update lookup_Nil split: option.splits node.splits if_splits)

lemma mkdir_exist_ok_dir: "mkdir_exist_ok fs ps = (fs', Inr u) \<Longrightarrow> is_dir fs' ps"
  by (auto simp: mkdir_exist_ok_def split: prod.splits sum.splits if_splits dest: os_mkdir_ok_dir os_mkdir_fail_same)

lemma mkdir_parents_ok_dir:
  "mkdir_parents fs ps = (fs', Inr u) \<Longrightarrow> is_dir fs' ps"
proof (induction fs ps arbitrary: fs' rule: mkdir_parents.induct)
  case (1 fs ps)
  show ?case
    using "1.prems"
    by (subst (asm) mkdir_parents.simps)
       (auto split: prod.splits sum.splits if_splits
             dest: os_mkdir_ok_dir os_mkdir_fail_same mkdir_exist_ok_dir)
qed

lemma butlast_not_prefix: "ps \<noteq> [] \<Longrightarrow> \<not> prefix ps (butlast ps)"
  by (metis append_butlast_last_id append_self_conv prefix_order.antisym_conv prefixeq_butlast not_Cons_self2 prefix_def)

lemma mkdir_parents_succeeds:
  "(\<And>q. prefix q ps \<Longrightarrow> \<not> is_file fs q) \<Longrightarrow> snd (mkdir_parents fs ps) = Inr ()"
proof (induction fs ps rule: mkdir_parents.induct)
  case (1 fs ps)
  have nofile: "\<not> is_file fs ps" using "1.prems" by simp
  show ?case
  proof (cases "lookup fs ps")
    case (Some n)
    with nofile have "n = Dir" by (cases n) (auto simp: is_file_def)
    with Some show ?thesis
      by (simp add: mkdir_parents.simps [of fs ps] os_mkdir_def is_dir_def)
  next
    case None
    then have ne: "ps \<noteq> []" by (auto simp: lookup_Nil)
    have nf: "\<not> is_file fs (butlast ps)" using "1.prems" by (simp add: prefixeq_butlast)
    show ?thesis
    proof (cases "lookup fs (butlast ps)")
      case (Some n)
      with nf have "n = Dir" by (cases n) (auto simp: is_file_def)
      with Some None show ?thesis
        by (simp add: mkdir_parents.simps [of fs ps] os_mkdir_def)
    next
      case pn: None
      have om: "os_mkdir fs ps = (fs, Inl FileNotFoundError)"
        using None pn by (simp add: os_mkdir_def)
      obtain fs1 r1 where p: "mkdir_parents fs (butlast ps) = (fs1, r1)" by force
      have "snd (mkdir_parents fs (butlast ps)) = Inr ()"
        using "1.IH" [OF om [symmetric] refl refl ne] "1.prems"
        by (meson prefix_order.trans prefixeq_butlast)
      with p have r1: "r1 = Inr ()" by simp
      from p r1 have d: "is_dir fs1 (butlast ps)" by (simp add: mkdir_parents_ok_dir)
      have "lookup fs1 ps = None"
      proof (cases "lookup fs1 ps")
        case (Some n)
        with mkdir_parents_new [of fs "butlast ps" ps n] p None butlast_not_prefix [OF ne]
        show ?thesis by auto
      qed simp
      with d have "mkdir_exist_ok fs1 ps = (AList.update ps Dir fs1, Inr ())"
        by (simp add: mkdir_exist_ok_def os_mkdir_def is_dir_def)
      with om p r1 ne show ?thesis
        by (simp add: mkdir_parents.simps [of fs ps])
    qed
  qed
qed

lemma relative_to_Inr:
  "relative_to p other = Inr rel \<Longrightarrow>
     is_absolute p = is_absolute other \<and> parts p = parts other @ parts rel \<and> \<not> is_absolute rel"
  by (auto simp: relative_to_def prefix_def split: if_splits)

lemma resolve_relative_to:
  "relative_to p other = Inr rel \<Longrightarrow> resolve cwd p = resolve cwd other @ parts rel"
  by (auto simp: resolve_def dest: relative_to_Inr)

lemma resolve_backup_dir:
  "resolve cwd (backup_dir project_root) = resolve cwd project_root @ [''.config_backup'']"
  by (simp add: backup_dir_def join_name_def resolve_def)

lemma resolve_backup_log:
  "resolve cwd (backup_log project_root) =
     resolve cwd project_root @ [''.config_backup'', ''backup_log.json'']"
  by (simp add: backup_log_def backup_dir_def join_name_def resolve_def)

lemma backup_name_not_trivial: "n @ ''.backup.'' @ s \<noteq> [] \<and> n @ ''.backup.'' @ s \<noteq> ''.''"
  by (cases n) auto

lemma backup_path_of_parts:
  "\<not> is_absolute rel \<Longrightarrow>
     backup_path_of project_root rel stamp =
       Path (is_absolute project_root)
         (parts project_root @ [''.config_backup''] @ butlast (parts rel) @
          [name rel @ ''.backup.'' @ stamp])"
  using backup_name_not_trivial [of "name rel" stamp]
  by (simp add: backup_path_of_def backup_dir_def join_name_def joinpath_def parent_def)

lemma resolve_backup_path_of:
  "\<not> is_absolute rel \<Longrightarrow>
     resolve cwd (backup_path_of project_root rel stamp) =
       resolve cwd project_root @ [''.config_backup''] @ butlast (parts rel) @
       [name rel @ ''.backup.'' @ stamp]"
  by (simp add: backup_path_of_parts resolve_def)

lemma resolve_parent_backup_path_of:
  "\<not> is_absolute rel \<Longrightarrow>
     resolve cwd (parent (backup_path_of project_root rel stamp)) =
       resolve cwd project_root @ [''.config_backup''] @ butlast (parts rel)"
  by (simp add: backup_path_of_parts resolve_def parent_def butlast_append)

lemma relative_to_backup_path_of:
  "\<not> is_absolute rel \<Longrightarrow>
     relative_to (backup_path_of project_root rel stamp) project_root =
       Inr (Path False ([''.config_backup''] @ butlast (parts rel) @ [name rel @ ''.backup.'' @ stamp]))"
  by (simp add: backup_path_of_parts relative_to_def)

lemma backup_name_not_log: "n @ ''.backup.'' @ s \<noteq> ''backup_log.json''"
proof
  assume "n @ ''.backup.'' @ s = ''backup_log.json''"
  then have "length (filter (\<lambda>c. c = CHR ''.'') (n @ ''.backup.'' @ s)) =
             length (filter (\<lambda>c. c = CHR ''.'') ''backup_log.json'')"
    by simp
  then show False by simp
qed

lemma stored_not_log:
  "R @ [''.config_backup''] @ d @ [n @ ''.backup.'' @ s] \<noteq> R @ [''.config_backup'', ''backup_log.json'']"
  using backup_name_not_log [of n s] by (cases d) auto

lemma stored_inside_not_log:
  "R @ [''.config_backup''] @ d @ [n @ ''.backup.'' @ s, x] \<noteq> R @ [''.config_backup'', ''backup_log.json'']"
  by (cases d) auto

lemma stored_not_source:
  "R @ [''.config_backup''] @ butlast r @ [b] \<noteq> R @ r"
proof
  assume "R @ [''.config_backup''] @ butlast r @ [b] = R @ r"
  then have "length ([''.config_backup''] @ butlast r @ [b]) = length r" by simp
  then show False by simp
qed

lemma stored_inside_not_source:
  "R @ [''.config_backup''] @ butlast r @ [b, x] \<noteq> R @ r"
proof
  assume "R @ [''.config_backup''] @ butlast r @ [b, x] = R @ r"
  then have "length ([''.config_backup''] @ butlast r @ [b, x]) = length r" by simp
  then show False by simp
qed

lemma log_records_Some:
  "log_records cwd project_root fs = Some es \<longleftrightarrow>
     (\<exists>t. lookup fs (resolve cwd (backup_log project_root)) = Some (File (JsonDoc es) t))"
  by (auto simp: log_records_def read_text_def json_loads_def
           split: option.splits node.splits content.splits sum.splits)

lemma is_file_lookup: "is_file fs q \<longleftrightarrow> (\<exists>c t. lookup fs q = Some (File c t))"
  by (auto simp: is_file_def split: option.splits node.splits)

lemma capturable_iff:
  "capturable cwd project_root fs file_path stamp \<longleftrightarrow>
     (\<exists>rel. relative_to file_path project_root = Inr rel \<and>
        is_file fs (resolve cwd file_path) \<and>
        (\<forall>q. prefix q (resolve cwd (parent (backup_path_of project_root rel stamp))) \<longrightarrow> \<not> is_file fs q) \<and>
        \<not> is_dir fs (resolve cwd (backup_path_of project_root rel stamp)))"
  by (auto simp: capturable_def Let_def list_all_iff in_set_prefixes split: sum.splits)

lemma backup_file_success:
  assumes init: "initialised cwd project_root fs"
    and cap: "capturable cwd project_root fs file_path (strftime now)"
    and rel: "relative_to file_path project_root = Inr rel"
    and src: "lookup fs (resolve cwd file_path) = Some (File c m)"
    and log: "log_records cwd project_root fs = Some es"
  shows "backup_file cwd project_root fs now now_log t file_path reason_text =
     (AList.update (resolve cwd (backup_log project_root))
        (File (JsonDoc (es @
           [\<lparr>timestamp = isoformat now_log, original = str rel,
             backup = str (Path False ([''.config_backup''] @ butlast (parts rel) @
                        [name rel @ ''.backup.'' @ strftime now])),
             reason = reason_text, size_bytes = length (bytes_of c)\<rparr>])) t)
        (AList.update (resolve cwd (backup_path_of project_root rel (strftime now))) (File c m)
           (fst (mkdir_parents fs (resolve cwd (parent (backup_path_of project_root rel (strftime now))))))),
      Inr (PyPath (backup_path_of project_root rel (strftime now))))"
proof -
  let ?R = "resolve cwd project_root"
  let ?bp = "backup_path_of project_root rel (strftime now)"
  let ?B = "resolve cwd ?bp"
  let ?P = "resolve cwd (parent ?bp)"
  let ?S = "resolve cwd file_path"
  let ?L = "resolve cwd (backup_log project_root)"
  let ?D = "resolve cwd (backup_dir project_root)"
  let ?bn = "name rel @ ''.backup.'' @ strftime now"
  have nabs: "\<not> is_absolute rel" using rel by (simp add: relative_to_Inr)
  have B: "?B = ?R @ [''.config_backup''] @ butlast (parts rel) @ [?bn]"
    using nabs by (rule resolve_backup_path_of)
  have P: "?P = ?R @ [''.config_backup''] @ butlast (parts rel)"
    using nabs by (rule resolve_parent_backup_path_of)
  have S: "?S = ?R @ parts rel" using rel by (rule resolve_relative_to)
  have L: "?L = ?R @ [''.config_backup'', ''backup_log.json'']" by (rule resolve_backup_log)
  have D: "?D = ?R @ [''.config_backup'']" by (rule resolve_backup_dir)
  have BP: "butlast ?B = ?P" by (simp add: B P butlast_append)
  have BL: "?B \<noteq> ?L" unfolding B L by (rule stored_not_log)
  have BS: "?B \<noteq> ?S" unfolding B S by (rule stored_not_source)
  have BD: "?B \<noteq> ?D" unfolding B D by simp
  have B_ne: "?B \<noteq> []" unfolding B by simp
  have L_ne: "?L \<noteq> []" unfolding L by simp
  have LD: "butlast ?L = ?D" by (simp add: L D butlast_append)
  from cap rel have nofile: "\<And>q. prefix q ?P \<Longrightarrow> \<not> is_file fs q"
    and nodir: "\<not> is_dir fs ?B"
    by (auto simp: capturable_iff)
  obtain fs1 where mk: "mkdir_parents fs ?P = (fs1, Inr ())"
    using mkdir_parents_succeeds [of ?P fs, OF nofile] by (cases "mkdir_parents fs ?P") auto
  have fs1: "fst (mkdir_parents fs ?P) = fs1" using mk by simp
  have keep: "\<And>q n. lookup fs q = Some n \<Longrightarrow> lookup fs1 q = Some n"
    using mkdir_parents_keep [of fs _ _ ?P] fs1 by simp
  have src1: "lookup fs1 ?S = Some (File c m)" using src by (rule keep)
  have Pdir: "is_dir fs1 ?P" using mk by (rule mkdir_parents_ok_dir)
  have notprefix: "\<not> prefix ?B ?P" unfolding B P by (simp add: prefix_def)
  have B1: "lookup fs1 ?B \<noteq> Some Dir"
  proof
    assume "lookup fs1 ?B = Some Dir"
    with mkdir_parents_new [of fs ?P ?B Dir] fs1 notprefix nodir show False
      by (auto simp: is_dir_def)
  qed
  then have dest: "copy_dest fs1 ?S ?B = ?B" by (simp add: copy_dest_def is_dir_def)
  have cp: "copy2 fs1 ?S ?B = (AList.update ?B (File c m) fs1, Inr ())"
    using src1 B1 Pdir BS BP dest
    by (auto simp: copy2_def Let_def is_dir_def split: option.splits node.splits)
  let ?fs2 = "AList.update ?B (File c m) fs1"
  obtain tl where logfile: "lookup fs ?L = Some (File (JsonDoc es) tl)"
    using log by (auto simp: log_records_Some)
  have log2: "lookup ?fs2 ?L = Some (File (JsonDoc es) tl)"
    using keep [OF logfile] BL L_ne by (simp add: lookup_update)
  have S_ne: "?S \<noteq> []" using src by (auto simp: lookup_Nil)
  have src2: "lookup ?fs2 ?S = Some (File c m)"
    using src1 BS S_ne by (simp add: lookup_update)
  have "is_dir fs ?D" using init by (simp add: initialised_def)
  then have "lookup fs1 ?D = Some Dir" by (auto simp: is_dir_def intro: keep)
  then have D2: "lookup ?fs2 (butlast ?L) = Some Dir"
    using BD by (simp add: LD lookup_update)
  have lb: "log_backup cwd project_root ?fs2 now_log t file_path ?bp reason_text =
     (AList.update ?L
        (File (JsonDoc (es @
           [\<lparr>timestamp = isoformat now_log, original = str rel,
             backup = str (Path False ([''.config_backup''] @ butlast (parts rel) @ [?bn])),
             reason = reason_text, size_bytes = length (bytes_of c)\<rparr>])) t) ?fs2, Inr ())"
    using log2 src2 D2 rel relative_to_backup_path_of [OF nabs, of project_root "strftime now"]
    by (simp add: log_backup_def read_text_def json_loads_def st_size_def write_text_def)
  have ex: "exists cwd fs file_path" using src by (simp add: exists_def)
  show ?thesis
    using ex rel mk cp lb
    by (simp add: backup_file_def Let_def and_then_def)
qed


lemma copy2_fail_same: "copy2 fs src dst = (fs', Inl e) \<Longrightarrow> fs' = fs"
  by (auto simp: copy2_def Let_def split: option.splits node.splits if_splits)

lemma copy2_ok:
  "copy2 fs src dst = (fs', Inr u) \<Longrightarrow>
     \<exists>c t. lookup fs src = Some (File c t) \<and>
       fs' = AList.update (copy_dest fs src dst) (File c t) fs \<and>
       copy_dest fs src dst \<noteq> src \<and> is_dir fs (butlast (copy_dest fs src dst)) \<and>
       \<not> is_dir fs (copy_dest fs src dst)"
  by (auto simp: copy2_def Let_def is_dir_def split: option.splits node.splits if_splits)

lemma write_text_fail_same: "write_text fs t ps c = (fs', Inl e) \<Longrightarrow> fs' = fs"
  by (auto simp: write_text_def split: option.splits node.splits if_splits)

lemma log_backup_fail_same:
  "log_backup cwd project_root fs now t original_path backup_path reason_text = (fs', Inl e) \<Longrightarrow> fs' = fs"
  by (auto simp: log_backup_def split: sum.splits dest: write_text_fail_same)

lemma log_backup_ok:
  "log_backup cwd project_root fs now t original_path backup_path reason_text = (fs', Inr u) \<Longrightarrow>
     \<exists>es e. log_records cwd project_root fs = Some es \<and>
       fs' = AList.update (resolve cwd (backup_log project_root)) (File (JsonDoc (es @ [e])) t) fs"
  by (auto simp: log_backup_def log_records_def write_text_def
           split: sum.splits option.splits node.splits)

text \<open>The ways in which \<open>backup_file\<close> can end.\<close>

lemma backup_file_cases:
  obtains
    (missing) "\<not> exists cwd fs file_path"
      "backup_file cwd project_root fs now now_log t file_path reason_text = (fs, Inr PyNone)"
  | (outside) "exists cwd fs file_path" "relative_to file_path project_root = Inl ValueError"
      "backup_file cwd project_root fs now now_log t file_path reason_text = (fs, Inl ValueError)"
  | (mkdir_raised) rel fs1 e where
      "exists cwd fs file_path" "relative_to file_path project_root = Inr rel"
      "mkdir_parents fs (resolve cwd (parent (backup_path_of project_root rel (strftime now)))) = (fs1, Inl e)"
      "backup_file cwd project_root fs now now_log t file_path reason_text = (fs1, Inl e)"
  | (copy_raised) rel fs1 e where
      "exists cwd fs file_path" "relative_to file_path project_root = Inr rel"
      "mkdir_parents fs (resolve cwd (parent (backup_path_of project_root rel (strftime now)))) = (fs1, Inr ())"
      "copy2 fs1 (resolve cwd file_path) (resolve cwd (backup_path_of project_root rel (strftime now))) = (fs1, Inl e)"
      "backup_file cwd project_root fs now now_log t file_path reason_text = (fs1, Inl e)"
  | (log_raised) rel fs1 fs2 e where
      "exists cwd fs file_path" "relative_to file_path project_root = Inr rel"
      "mkdir_parents fs (resolve cwd (parent (backup_path_of project_root rel (strftime now)))) = (fs1, Inr ())"
      "copy2 fs1 (resolve cwd file_path) (resolve cwd (backup_path_of project_root rel (strftime now))) = (fs2, Inr ())"
      "log_backup cwd project_root fs2 now_log t file_path (backup_path_of project_root rel (strftime now)) reason_text = (fs2, Inl e)"
      "backup_file cwd project_root fs now now_log t file_path reason_text = (fs2, Inl e)"
  | (stored) rel fs1 fs2 fs3 where
      "exists cwd fs file_path" "relative_to file_path project_root = Inr rel"
      "mkdir_parents fs (resolve cwd (parent (backup_path_of project_root rel (strftime now)))) = (fs1, Inr ())"
      "copy2 fs1 (resolve cwd file_path) (resolve cwd (backup_path_of project_root rel (strftime now))) = (fs2, Inr ())"
      "log_backup cwd project_root fs2 now_log t file_path (backup_path_of project_root rel (strftime now)) reason_text = (fs3, Inr ())"
      "backup_file cwd project_root fs now now_log t file_path reason_text =
         (fs3, Inr (PyPath (backup_path_of project_root rel (strftime now))))"
proof (cases "exists cwd fs file_path")
  case False
  then show ?thesis using missing by (simp add: backup_file_def)
next
  case ex: True
  show ?thesis
  proof (cases "relative_to file_path project_root")
    case (Inl e)
    then have "e = ValueError" by (auto simp: relative_to_def split: if_splits)
    with Inl ex show ?thesis using outside by (simp add: backup_file_def)
  next
    case (Inr rel)
    let ?bp = "backup_path_of project_root rel (strftime now)"
    obtain fs1 r1 where mk: "mkdir_parents fs (resolve cwd (parent ?bp)) = (fs1, r1)" by force
    show ?thesis
    proof (cases r1)
      case (Inl e)
      with ex Inr mk show ?thesis using mkdir_raised [of rel fs1 e]
        by (simp add: backup_file_def and_then_def Let_def)
    next
      case r1: (Inr u)
      obtain fs2 r2 where cp: "copy2 fs1 (resolve cwd file_path) (resolve cwd ?bp) = (fs2, r2)" by force
      show ?thesis
      proof (cases r2)
        case (Inl e)
        with cp have "fs2 = fs1" by (simp add: copy2_fail_same)
        with Inl ex Inr mk r1 cp show ?thesis using copy_raised [of rel fs1 e]
          by (simp add: backup_file_def and_then_def Let_def)
      next
        case r2: (Inr u2)
        obtain fs3 r3 where lb:
          "log_backup cwd project_root fs2 now_log t file_path ?bp reason_text = (fs3, r3)" by force
        show ?thesis
        proof (cases r3)
          case (Inl e)
          with lb have "fs3 = fs2" by (simp add: log_backup_fail_same)
          with Inl ex Inr mk r1 cp r2 lb show ?thesis using log_raised [of rel fs1 fs2 e]
            by (simp add: backup_file_def and_then_def Let_def)
        next
          case r3: (Inr u3)
          with ex Inr mk r1 cp r2 lb show ?thesis using stored [of rel fs1 fs2 fs3]
            by (simp add: backup_file_def and_then_def Let_def)
        qed
      qed
    qed
  qed
qed

lemma mkdir_parents_changes:
  assumes "lookup (fst (mkdir_parents fs ps)) q \<noteq> lookup fs q"
  shows "lookup fs q = None \<and> prefix q ps \<and> lookup (fst (mkdir_parents fs ps)) q = Some Dir"
proof (cases "lookup fs q")
  case (Some n)
  with mkdir_parents_keep [of fs q n ps] assms show ?thesis by simp
next
  case None
  with assms obtain n where n: "lookup (fst (mkdir_parents fs ps)) q = Some n" by fastforce
  from mkdir_parents_new [OF n] None n show ?thesis by auto
qed

lemma log_records_lookup:
  "lookup fs' (resolve cwd (backup_log project_root)) = lookup fs (resolve cwd (backup_log project_root)) \<Longrightarrow>
     log_records cwd project_root fs' = log_records cwd project_root fs"
  by (simp add: log_records_def read_text_def)

lemma log_records_mkdir_parents:
  "log_records cwd project_root (fst (mkdir_parents fs ps)) = log_records cwd project_root fs"
proof (cases "lookup (fst (mkdir_parents fs ps)) (resolve cwd (backup_log project_root)) =
              lookup fs (resolve cwd (backup_log project_root))")
  case True
  then show ?thesis by (rule log_records_lookup)
next
  case False
  from mkdir_parents_changes [OF False] show ?thesis
    by (simp add: log_records_def read_text_def)
qed

lemma log_records_update_other:
  "k \<noteq> resolve cwd (backup_log project_root) \<Longrightarrow>
     log_records cwd project_root (AList.update k v fs) = log_records cwd project_root fs"
  by (rule log_records_lookup) (simp add: lookup_update lookup_Nil)

lemma log_records_update_log:
  "log_records cwd project_root
     (AList.update (resolve cwd (backup_log project_root)) (File (JsonDoc es) t) fs) = Some es"
  by (simp add: log_records_def read_text_def json_loads_def lookup_update resolve_backup_log)

lemma copy_dest_backup_not_log:
  assumes "\<not> is_absolute rel"
  shows "copy_dest fs1 src (resolve cwd (backup_path_of project_root rel stamp)) \<noteq>
         resolve cwd (backup_log project_root)"
proof -
  have "resolve cwd (backup_path_of project_root rel stamp) \<noteq> resolve cwd (backup_log project_root)"
    unfolding resolve_backup_path_of [OF assms] resolve_backup_log by (rule stored_not_log)
  moreover have "resolve cwd (backup_path_of project_root rel stamp) @ [x] \<noteq>
      resolve cwd (backup_log project_root)" for x
    unfolding resolve_backup_path_of [OF assms] resolve_backup_log
    using stored_inside_not_log [of "resolve cwd project_root" "butlast (parts rel)" "name rel" stamp x]
    by simp
  ultimately show ?thesis by (simp add: copy_dest_def)
qed

lemma copy_dest_backup_not_source:
  assumes "relative_to file_path project_root = Inr rel"
  shows "copy_dest fs1 src (resolve cwd (backup_path_of project_root rel stamp)) \<noteq>
         resolve cwd file_path"
proof -
  have nabs: "\<not> is_absolute rel" using assms by (simp add: relative_to_Inr)
  have "resolve cwd (backup_path_of project_root rel stamp) \<noteq> resolve cwd file_path"
    unfolding resolve_backup_path_of [OF nabs] resolve_relative_to [OF assms]
    by (rule stored_not_source)
  moreover have "resolve cwd (backup_path_of project_root rel stamp) @ [x] \<noteq> resolve cwd file_path" for x
    unfolding resolve_backup_path_of [OF nabs] resolve_relative_to [OF assms]
    using stored_inside_not_source [of "resolve cwd project_root" "parts rel" _ x] by simp
  ultimately show ?thesis by (simp add: copy_dest_def)
qed

text \<open>What a call of \<open>backup_file\<close> does to the records of the log.\<close>

lemma backup_file_log_records:
  "(\<exists>p es e. snd (backup_file cwd project_root fs now now_log t file_path reason_text) = Inr (PyPath p) \<and>
       log_records cwd project_root fs = Some es \<and>
       log_records cwd project_root
         (fst (backup_file cwd project_root fs now now_log t file_path reason_text)) = Some (es @ [e])) \<or>
   ((\<forall>p. snd (backup_file cwd project_root fs now now_log t file_path reason_text) \<noteq> Inr (PyPath p)) \<and>
       log_records cwd project_root
         (fst (backup_file cwd project_root fs now now_log t file_path reason_text)) =
       log_records cwd project_root fs)"
proof (cases rule: backup_file_cases [of cwd fs file_path project_root now now_log t reason_text])
  case missing
  then show ?thesis by simp
next
  case outside
  then show ?thesis by simp
next
  case (mkdir_raised rel fs1 e)
  then show ?thesis
    using log_records_mkdir_parents [of cwd project_root fs] by (metis fst_conv snd_conv sum.distinct(1))
next
  case (copy_raised rel fs1 e)
  then show ?thesis
    using log_records_mkdir_parents [of cwd project_root fs] by (metis fst_conv snd_conv sum.distinct(1))
next
  case (log_raised rel fs1 fs2 e)
  have nabs: "\<not> is_absolute rel" using log_raised(2) by (simp add: relative_to_Inr)
  from copy2_ok [OF log_raised(4)] obtain c m where
    "fs2 = AList.update (copy_dest fs1 (resolve cwd file_path)
             (resolve cwd (backup_path_of project_root rel (strftime now)))) (File c m) fs1"
    by blast
  then have "log_records cwd project_root fs2 = log_records cwd project_root fs1"
    using copy_dest_backup_not_log [OF nabs] by (simp add: log_records_update_other)
  moreover have "log_records cwd project_root fs1 = log_records cwd project_root fs"
    using log_records_mkdir_parents [of cwd project_root fs] log_raised(3) by (metis fst_conv)
  ultimately show ?thesis using log_raised(6) by simp
next
  case (stored rel fs1 fs2 fs3)
  have nabs: "\<not> is_absolute rel" using stored(2) by (simp add: relative_to_Inr)
  from copy2_ok [OF stored(4)] obtain c m where
    "fs2 = AList.update (copy_dest fs1 (resolve cwd file_path)
             (resolve cwd (backup_path_of project_root rel (strftime now)))) (File c m) fs1"
    by blast
  then have "log_records cwd project_root fs2 = log_records cwd project_root fs1"
    using copy_dest_backup_not_log [OF nabs] by (simp add: log_records_update_other)
  moreover have "log_records cwd project_root fs1 = log_records cwd project_root fs"
    using log_records_mkdir_parents [of cwd project_root fs] stored(3) by (metis fst_conv)
  moreover from log_backup_ok [OF stored(5)] obtain es e where
    "log_records cwd project_root fs2 = Some es"
    "fs3 = AList.update (resolve cwd (backup_log project_root)) (File (JsonDoc (es @ [e])) t) fs2"
    by blast
  ultimately show ?thesis using stored(6) by (simp add: log_records_update_log)
qed















lemma run_captures_no_log:
  "log_records cwd project_root fs = None \<Longrightarrow>
     log_records cwd project_root (run_captures cwd project_root fs calls) = None"
proof (induction calls arbitrary: fs)
  case Nil
  then show ?case by simp
next
  case (Cons call calls)
  obtain now now_log t file_path reason_text where call: "call = (now, now_log, t, file_path, reason_text)"
    by (cases call) auto
  let ?fs1 = "fst (backup_file cwd project_root fs now now_log t file_path reason_text)"
  from backup_file_log_records [of cwd project_root fs now now_log t file_path reason_text] Cons.prems
  have "log_records cwd project_root ?fs1 = None" by auto
  from Cons.IH [OF this] show ?case by (simp add: call)
qed



lemma fnmatch_backup_name: "fnmatch_backup (n @ ''.backup.'' @ s)"
  unfolding fnmatch_backup_def sublist_def by blast

lemma paths_lookup: "p \<in> set (paths fs) \<Longrightarrow> lookup fs p \<noteq> None"
  by (auto simp: paths_def lookup_def dest: weak_map_of_SomeI)





lemma remove_if_empty_effect:
  "lookup (remove_if_empty fs d) q = lookup fs q \<or>
   (q = d \<and> is_dir fs q \<and> lookup (remove_if_empty fs d) q = None)"
  by (auto simp: remove_if_empty_def rmdir_def lookup_delete lookup_Nil is_dir_def
           split: option.splits node.splits)

lemma remove_empty_dirs_effect:
  "lookup (remove_empty_dirs ds fs) q = lookup fs q \<or>
   (q \<in> set ds \<and> is_dir fs q \<and> lookup (remove_empty_dirs ds fs) q = None)"
proof (induction ds arbitrary: fs)
  case Nil
  then show ?case by simp
next
  case (Cons d ds)
  from remove_if_empty_effect [of fs d q] Cons.IH [of "remove_if_empty fs d"]
  show ?case by (auto simp: is_dir_def)
qed




lemma expired_delete: "q \<noteq> p \<Longrightarrow> expired c (AList.delete p fs) q = expired c fs q"
  by (simp add: expired_def lookup_delete lookup_Nil)

lemma unlink_old_exact:
  assumes "distinct ps" and "\<forall>p\<in>set ps. lookup fs p \<noteq> None"
    and "\<forall>p\<in>set ps. is_dir fs p \<longrightarrow> \<not> dm p < c"
  shows "snd (unlink_old dm c ps fs) = Inr () \<and>
     (\<forall>q. lookup (fst (unlink_old dm c ps fs)) q =
            (if q \<in> set ps \<and> expired c fs q then None else lookup fs q))"
  using assms
proof (induction ps arbitrary: fs)
  case Nil
  then show ?case by simp
next
  case (Cons p ps)
  from Cons.prems obtain n where n: "lookup fs p = Some n" by auto
  have dist: "distinct ps" and pn: "p \<notin> set ps" using Cons.prems(1) by auto
  show ?case
  proof (cases "expired c fs p")
    case False
    have step: "unlink_old dm c (p # ps) fs = unlink_old dm c ps fs"
      using n False Cons.prems(3)
      by (cases n) (auto simp: st_mtime_def expired_def is_dir_def)
    have "snd (unlink_old dm c ps fs) = Inr () \<and>
      (\<forall>q. lookup (fst (unlink_old dm c ps fs)) q =
            (if q \<in> set ps \<and> expired c fs q then None else lookup fs q))"
      using Cons.prems by (intro Cons.IH) auto
    with False show ?thesis unfolding step by auto
  next
    case True
    then obtain co t where f: "lookup fs p = Some (File co t)" and old: "t < c"
      by (auto simp: expired_def split: option.splits node.splits)
    then have pne: "p \<noteq> []" by (auto simp: lookup_Nil)
    let ?fs' = "AList.delete p fs"
    have step: "unlink_old dm c (p # ps) fs = unlink_old dm c ps ?fs'"
      using f old by (simp add: st_mtime_def unlink_def and_then_def)
    have same: "\<And>q. q \<noteq> p \<Longrightarrow> lookup ?fs' q = lookup fs q"
      by (simp add: lookup_delete lookup_Nil)
    have "snd (unlink_old dm c ps ?fs') = Inr () \<and>
      (\<forall>q. lookup (fst (unlink_old dm c ps ?fs')) q =
            (if q \<in> set ps \<and> expired c ?fs' q then None else lookup ?fs' q))"
    proof (intro Cons.IH dist ballI impI)
      fix p' assume "p' \<in> set ps"
      with pn have "p' \<noteq> p" by auto
      with same [of p'] Cons.prems(2) \<open>p' \<in> set ps\<close>
      show "lookup ?fs' p' \<noteq> None" by simp
      assume "is_dir ?fs' p'"
      with same [of p'] \<open>p' \<noteq> p\<close> have "is_dir fs p'" by (simp add: is_dir_def)
      with Cons.prems(3) \<open>p' \<in> set ps\<close> show "\<not> dm p' < c" by simp
    qed
    then have ok: "snd (unlink_old dm c ps ?fs') = Inr ()"
      and ih: "\<And>q. lookup (fst (unlink_old dm c ps ?fs')) q =
            (if q \<in> set ps \<and> expired c ?fs' q then None else lookup ?fs' q)"
      by auto
    have gone: "lookup ?fs' p = None" using pne by (simp add: lookup_delete)
    have "lookup (fst (unlink_old dm c ps ?fs')) q =
            (if q \<in> set (p # ps) \<and> expired c fs q then None else lookup fs q)" for q
    proof (cases "q = p")
      case True
      with ih [of p] pn gone \<open>expired c fs p\<close> show ?thesis by simp
    next
      case False
      with ih [of q] same [of q] expired_delete [of q p c fs] show ?thesis by simp
    qed
    with ok show ?thesis unfolding step by simp
  qed
qed





lemma remove_empty_dirs_lookup_Some:
  "lookup (remove_empty_dirs ds fs) q = Some n \<Longrightarrow> lookup fs q = Some n"
  using remove_empty_dirs_effect [of ds fs q] by auto




lemma distinct_rglob_backups: "distinct (rglob_backups fs d)"
  by (simp add: rglob_backups_def walk_def paths_def)

lemma rglob_backups_lookup: "p \<in> set (rglob_backups fs d) \<Longrightarrow> lookup fs p \<noteq> None"
  by (auto simp: rglob_backups_def walk_def paths_lookup split: if_splits)



text \<open>The first loop, when no directory named like a backup is older than the cutoff.\<close>

lemma unlink_old_backups:
  assumes "\<forall>p\<in>set (rglob_backups fs d). is_dir fs p \<longrightarrow> \<not> dm p < c"
  shows "snd (unlink_old dm c (rglob_backups fs d) fs) = Inr () \<and>
     (\<forall>q. lookup (fst (unlink_old dm c (rglob_backups fs d) fs)) q =
            (if q \<in> set (rglob_backups fs d) \<and> expired c fs q then None else lookup fs q))"
  using assms by (intro unlink_old_exact distinct_rglob_backups) (auto dest: rglob_backups_lookup)

lemma cleanup_old_backups_unfold:
  assumes "unlink_old dm (now_ts - of_int (keep_days * 24 * 60 * 60))
             (rglob_backups fs (resolve cwd (backup_dir project_root))) fs = (fs1, Inr ())"
  shows "cleanup_old_backups cwd project_root fs now_ts dm keep_days =
     (remove_empty_dirs
        (sort_key (\<lambda>p. - int (length p)) (rglob_dirs fs1 (resolve cwd (backup_dir project_root)))) fs1,
      Inr PyNone)"
  using assms by (simp add: cleanup_old_backups_def Let_def and_then_def)

lemma digit_inj: "digit a = digit b \<Longrightarrow> a mod 10 = b mod 10"
proof -
  assume "digit a = digit b"
  then have "''0123456789'' ! (a mod 10) = ''0123456789'' ! (b mod 10)" by (simp add: digit_def)
  moreover have "distinct ''0123456789''" by simp
  moreover have "a mod 10 < length ''0123456789''" "b mod 10 < length ''0123456789''" by simp_all
  ultimately show ?thesis by (simp only: nth_eq_iff_index_eq)
qed

lemma div_mod_10_eq: "(x::nat) div 10 = y div 10 \<Longrightarrow> x mod 10 = y mod 10 \<Longrightarrow> x = y"
  by (metis div_mult_mod_eq)

lemma pad2_inj:
  assumes "pad2 a = pad2 b" and "a < 100" and "b < 100"
  shows "a = b"
proof -
  from assms(1) have d1: "digit (a div 10) = digit (b div 10)" and d0: "digit a = digit b"
    by (simp_all add: pad2_def)
  note 1 = digit_inj [OF d1] and 0 = digit_inj [OF d0]
  have "a div 10 < 10" "b div 10 < 10" using assms(2,3) by (simp_all add: div_less_iff_less_mult)
  with 1 have "a div 10 = b div 10" by simp
  with 0 show ?thesis by (rule div_mod_10_eq [rotated])
qed

lemma pad4_inj:
  assumes "pad4 a = pad4 b" and "a < 10000" and "b < 10000"
  shows "a = b"
proof -
  from assms(1) have d3: "digit (a div 1000) = digit (b div 1000)"
    and d2: "digit (a div 100) = digit (b div 100)"
    and d1: "digit (a div 10) = digit (b div 10)" and d0: "digit a = digit b"
    by (simp_all add: pad4_def)
  note 3 = digit_inj [OF d3] and 2 = digit_inj [OF d2] and 1 = digit_inj [OF d1] and 0 = digit_inj [OF d0]
  have "a div 1000 < 10" "b div 1000 < 10" using assms(2,3) by (simp_all add: div_less_iff_less_mult)
  with 3 have "a div 1000 = b div 1000" by simp
  then have "(a div 100) div 10 = (b div 100) div 10" by (simp add: div_mult2_eq [symmetric])
  from div_mod_10_eq [OF this 2] have "a div 100 = b div 100" .
  then have "(a div 10) div 10 = (b div 10) div 10" by (simp add: div_mult2_eq [symmetric])
  from div_mod_10_eq [OF this 1] have "a div 10 = b div 10" .
  from div_mod_10_eq [OF this 0] show ?thesis .
qed

lemma strftime_inj:
  assumes "valid_datetime a" and "valid_datetime b" and "strftime a = strftime b"
  shows "same_second a b"
proof -
  have len2: "\<And>n. length (pad2 n) = 2" and len4: "\<And>n. length (pad4 n) = 4"
    by (simp_all add: pad2_def pad4_def)
  from assms(3) have "pad4 (year a) = pad4 (year b)" "pad2 (month a) = pad2 (month b)"
    "pad2 (day a) = pad2 (day b)" "pad2 (hour a) = pad2 (hour b)"
    "pad2 (minute a) = pad2 (minute b)" "pad2 (second a) = pad2 (second b)"
    by (simp_all add: strftime_def len2 len4)
  moreover have "year a < 10000" "year b < 10000" "month a < 100" "month b < 100"
    "day a < 100" "day b < 100" "hour a < 100" "hour b < 100" "minute a < 100" "minute b < 100"
    "second a < 100" "second b < 100"
    using assms(1,2) by (simp_all add: valid_datetime_def)
  ultimately show ?thesis
    unfolding same_second_def by (simp add: pad2_inj pad4_inj)
qed

lemma same_second_close:
  assumes "same_second a b" and "microsecond a < 1000000" and "microsecond b < 1000000"
  shows "\<bar>to_microseconds a - to_microseconds b\<bar> < 1000000"
proof -
  define s where "s = (((ymd2ord (year a) (month a) (day a) * 24 + hour a) * 60 + minute a) * 60
           + second a) * 1000000"
  have "to_microseconds a = int s + int (microsecond a)"
    by (simp add: to_microseconds_def s_def)
  moreover have "to_microseconds b = int s + int (microsecond b)"
    using assms(1) by (simp add: to_microseconds_def s_def same_second_def)
  ultimately show ?thesis using assms(2,3) by simp
qed

lemma same_second_strftime: "same_second a b \<Longrightarrow> strftime a = strftime b"
  by (simp add: same_second_def strftime_def)

lemma join_sep_snoc_inj: "join_sep (xs @ [a]) = join_sep (xs @ [b]) \<Longrightarrow> a = b"
proof (induction xs)
  case Nil
  then show ?case by simp
next
  case (Cons x xs)
  then show ?case by (cases xs) auto
qed

text \<open>The table after a capture that meets its preconditions.\<close>

lemma backup_file_success_lookup:
  assumes init: "initialised cwd project_root fs"
    and cap: "capturable cwd project_root fs file_path (strftime now)"
    and rel: "relative_to file_path project_root = Inr rel"
    and src: "lookup fs (resolve cwd file_path) = Some (File c m)"
    and log: "log_records cwd project_root fs = Some es"
  shows "lookup (fst (backup_file cwd project_root fs now now_log t file_path reason_text)) q =
     (if q = resolve cwd (backup_log project_root) then
        Some (File (JsonDoc (es @
           [\<lparr>timestamp = isoformat now_log, original = str rel,
             backup = str (Path False ([''.config_backup''] @ butlast (parts rel) @
                        [name rel @ ''.backup.'' @ strftime now])),
             reason = reason_text, size_bytes = length (bytes_of c)\<rparr>])) t)
      else if q = resolve cwd (backup_path_of project_root rel (strftime now)) then Some (File c m)
      else lookup (fst (mkdir_parents fs (resolve cwd (parent (backup_path_of project_root rel (strftime now)))))) q)"
proof -
  have nabs: "\<not> is_absolute rel" using rel by (simp add: relative_to_Inr)
  have "resolve cwd (backup_log project_root) \<noteq> []" by (simp add: resolve_backup_log)
  moreover have "resolve cwd (backup_path_of project_root rel (strftime now)) \<noteq> []"
    by (simp add: resolve_backup_path_of [OF nabs])
  ultimately show ?thesis
    unfolding backup_file_success [OF assms]
    by (simp add: lookup_update lookup_Nil)
qed

lemma capturable_after:
  assumes init: "initialised cwd project_root fs"
    and cap1: "capturable cwd project_root fs file_path (strftime now)"
    and cap2: "capturable cwd project_root fs file_path stamp"
  shows "initialised cwd project_root (fst (backup_file cwd project_root fs now now_log t file_path reason_text)) \<and>
         capturable cwd project_root (fst (backup_file cwd project_root fs now now_log t file_path reason_text))
           file_path stamp"
proof -
  let ?fs' = "fst (backup_file cwd project_root fs now now_log t file_path reason_text)"
  from cap1 obtain rel c m where rel: "relative_to file_path project_root = Inr rel"
    and src: "lookup fs (resolve cwd file_path) = Some (File c m)"
    by (auto simp: capturable_iff is_file_lookup)
  from init obtain es where log: "log_records cwd project_root fs = Some es"
    by (auto simp: initialised_def)
  have nabs: "\<not> is_absolute rel" using rel by (simp add: relative_to_Inr)
  let ?R = "resolve cwd project_root"
  let ?L = "resolve cwd (backup_log project_root)"
  let ?D = "resolve cwd (backup_dir project_root)"
  let ?S = "resolve cwd file_path"
  let ?B1 = "resolve cwd (backup_path_of project_root rel (strftime now))"
  let ?B2 = "resolve cwd (backup_path_of project_root rel stamp)"
  let ?P = "resolve cwd (parent (backup_path_of project_root rel (strftime now)))"
  let ?fs1 = "fst (mkdir_parents fs ?P)"
  note look = backup_file_success_lookup [OF init cap1 rel src log, of now_log t reason_text]
  have P2: "resolve cwd (parent (backup_path_of project_root rel stamp)) = ?P"
    by (simp add: resolve_parent_backup_path_of [OF nabs])
  have B1: "?B1 = ?P @ [name rel @ ''.backup.'' @ strftime now]"
    and B2: "?B2 = ?P @ [name rel @ ''.backup.'' @ stamp]"
    by (simp_all add: resolve_backup_path_of [OF nabs] resolve_parent_backup_path_of [OF nabs])
  have L: "?L = ?R @ [''.config_backup'', ''backup_log.json'']" by (rule resolve_backup_log)
  have D: "?D = ?R @ [''.config_backup'']" by (rule resolve_backup_dir)
  have S: "?S = ?R @ parts rel" using rel by (rule resolve_relative_to)
  have DL: "?D \<noteq> ?L" by (simp add: D L)
  have DB: "?D \<noteq> ?B1" by (simp add: D resolve_backup_path_of [OF nabs])
  have SB: "?S \<noteq> ?B1"
    unfolding S resolve_backup_path_of [OF nabs] by (rule stored_not_source [THEN not_sym])
  have B2L: "?B2 \<noteq> ?L" unfolding resolve_backup_path_of [OF nabs] L by (rule stored_not_log)
  from cap1 cap2 rel have nofile: "\<And>q. prefix q ?P \<Longrightarrow> \<not> is_file fs q"
    and nodir2: "\<not> is_dir fs ?B2"
    by (auto simp: capturable_iff P2)
  have keep: "\<And>q n. lookup fs q = Some n \<Longrightarrow> lookup ?fs1 q = Some n"
    by (rule mkdir_parents_keep)
  have new: "\<And>q n. lookup ?fs1 q = Some n \<Longrightarrow> lookup fs q = Some n \<or> (n = Dir \<and> prefix q ?P)"
    by (rule mkdir_parents_new)
  have "is_dir fs ?D" using init by (simp add: initialised_def)
  then have "lookup ?fs1 ?D = Some Dir" by (auto simp: is_dir_def intro: keep)
  then have dir': "is_dir ?fs' ?D" using DL DB by (simp add: look is_dir_def)
  have log': "log_records cwd project_root ?fs' \<noteq> None"
    by (simp add: log_records_Some look)
  have src': "is_file ?fs' ?S"
    using keep [OF src] SB by (simp add: look is_file_lookup)
  have pre': "\<not> is_file ?fs' q" if q: "prefix q ?P" for q
  proof -
    have qL: "q \<noteq> ?L"
    proof
      assume "q = ?L"
      with nofile [OF q] log show False by (auto simp: log_records_Some is_file_lookup)
    qed
    have qB: "q \<noteq> ?B1" using q unfolding B1 by (auto simp: prefix_def)
    from nofile [OF q] new [of q] have "\<not> is_file ?fs1 q" by (auto simp: is_file_lookup)
    with qL qB show ?thesis by (simp add: look is_file_def)
  qed
  have nodir': "\<not> is_dir ?fs' ?B2"
  proof (cases "?B2 = ?B1")
    case True
    with B2L show ?thesis by (simp add: look is_dir_def)
  next
    case False
    have "\<not> prefix ?B2 ?P" unfolding B2 by (auto simp: prefix_def)
    with new [of ?B2 Dir] nodir2 have "lookup ?fs1 ?B2 \<noteq> Some Dir" by (auto simp: is_dir_def)
    with False B2L show ?thesis by (simp add: look is_dir_def)
  qed
  show ?thesis
    using dir' log' src' pre' nodir' rel
    by (auto simp: initialised_def capturable_iff P2)
qed

lemma backup_path_of_inj:
  "\<not> is_absolute rel \<Longrightarrow> backup_path_of project_root rel s1 = backup_path_of project_root rel s2 \<Longrightarrow> s1 = s2"
  by (simp add: backup_path_of_parts)

section \<open>The claims\<close>

text \<open>
  C1 (the code departs from the claim).  The claim: capturing a file below the project
  root and restoring the returned backup path with no target brings the file back at its
  original path.  \<^verbatim>\<open>restore_backup\<close> takes \<^verbatim>\<open>backup_path.parent.parent\<close> as the
  directory of the target, which is the original directory only for a file directly in
  the project root.  Here \<^verbatim>\<open>/proj/config/build.gradle.kts\<close> is captured, deleted and
  restored: the restore reports success, the original path stays empty, and the content
  lands in \<^verbatim>\<open>/proj/.config_backup/build.gradle.kts\<close>.
\<close>

theorem restore_misses_original_directory:
  "(case backup_file example_cwd example_root example_store example_now example_now 1001
           example_file ''pre-fix'' of
      (fs1, r1) \<Rightarrow>
        (case unlink fs1 (resolve example_cwd example_file) of
           (fs2, r2) \<Rightarrow>
             (case restore_backup example_cwd example_root fs2 example_backup None of
                (fs3, r3) \<Rightarrow>
                  r1 = Inr (PyPath example_backup) \<and> r2 = Inr () \<and> r3 = Inr (PyBool True) \<and>
                  lookup fs3 (resolve example_cwd example_file) = None \<and>
                  lookup fs3 [''proj'', ''.config_backup'', ''build.gradle.kts''] =
                    Some (File (Text ''plugins {}'') 100))))"
  by code_simp

text \<open>
  C2.  Capturing a path that does not exist returns \<^verbatim>\<open>None\<close>, raises nothing and
  leaves the whole state as it was: no record is appended to the log and no file is
  created.
\<close>

theorem backup_file_missing_source:
  "\<not> exists cwd fs file_path \<Longrightarrow>
     backup_file cwd project_root fs now now_log t file_path reason_text = (fs, Inr PyNone)"
  by (simp add: backup_file_def)

theorem backup_file_missing_source_witness:
  "\<not> exists example_cwd example_store (Path True [''proj'', ''missing.txt'']) \<and>
   backup_file example_cwd example_root example_store example_now example_now 1001
     (Path True [''proj'', ''missing.txt'']) ''pre-fix'' = (example_store, Inr PyNone) \<and>
   log_length example_cwd example_root example_store = 0"
proof -
  have h: "\<not> exists example_cwd example_store (Path True [''proj'', ''missing.txt''])"
    by code_simp
  have l: "log_length example_cwd example_root example_store = 0"
    by code_simp
  show ?thesis
    using h l backup_file_missing_source [OF h, of example_root example_now example_now 1001 "''pre-fix''"]
    by simp
qed









text \<open>
  C6 (amended).  \<^verbatim>\<open>cleanup_old_backups\<close> returns nothing (\<^verbatim>\<open>None\<close>), not a count.  When
  no directory below the backup directory has a name matching \<^verbatim>\<open>*.backup.*\<close> and a
  modification time older than the cutoff (\<^verbatim>\<open>unlink\<close> would raise on it), the call ends
  normally, the regular files it removes are exactly the files found by
  \<^verbatim>\<open>rglob("*.backup.*")\<close> below the backup directory whose modification time is older than
  \<^verbatim>\<open>now - keep_days\<close> days, every other regular file stays as it was, and no file is
  created.
\<close>

theorem cleanup_removes_expired:
  assumes "\<forall>p\<in>set (rglob_backups fs (resolve cwd (backup_dir project_root))).
             is_dir fs p \<longrightarrow> \<not> dm p < now_ts - of_int (keep_days * 24 * 60 * 60)"
  shows "snd (cleanup_old_backups cwd project_root fs now_ts dm keep_days) = Inr PyNone \<and>
     (\<forall>q. is_file fs q \<longrightarrow>
        lookup (fst (cleanup_old_backups cwd project_root fs now_ts dm keep_days)) q =
          (if q \<in> set (rglob_backups fs (resolve cwd (backup_dir project_root))) \<and>
              expired (now_ts - of_int (keep_days * 24 * 60 * 60)) fs q
           then None else lookup fs q)) \<and>
     (\<forall>q. is_file (fst (cleanup_old_backups cwd project_root fs now_ts dm keep_days)) q \<longrightarrow> is_file fs q)"
proof -
  let ?c = "now_ts - of_int (keep_days * 24 * 60 * 60)"
  let ?d = "resolve cwd (backup_dir project_root)"
  obtain fs1 r1 where u: "unlink_old dm ?c (rglob_backups fs ?d) fs = (fs1, r1)" by force
  from unlink_old_backups [OF assms] u have r1: "r1 = Inr ()"
    and l1: "\<And>q. lookup fs1 q = (if q \<in> set (rglob_backups fs ?d) \<and> expired ?c fs q then None else lookup fs q)"
    by auto
  let ?ds = "sort_key (\<lambda>p. - int (length p)) (rglob_dirs fs1 ?d)"
  have res: "cleanup_old_backups cwd project_root fs now_ts dm keep_days = (remove_empty_dirs ?ds fs1, Inr PyNone)"
    using u r1 by (simp add: cleanup_old_backups_unfold)
  have eff: "\<And>q. lookup (remove_empty_dirs ?ds fs1) q = lookup fs1 q \<or>
                  (is_dir fs1 q \<and> lookup (remove_empty_dirs ?ds fs1) q = None)"
    using remove_empty_dirs_effect [of ?ds fs1] by blast
  have a: "lookup (remove_empty_dirs ?ds fs1) q =
          (if q \<in> set (rglob_backups fs ?d) \<and> expired ?c fs q then None else lookup fs q)"
    if "is_file fs q" for q
    using eff [of q] l1 [of q] that by (auto simp: is_dir_def is_file_lookup)
  have b: "is_file fs q" if "is_file (remove_empty_dirs ?ds fs1) q" for q
  proof -
    from that obtain c t where "lookup (remove_empty_dirs ?ds fs1) q = Some (File c t)"
      by (auto simp: is_file_lookup)
    then have "lookup fs1 q = Some (File c t)" by (rule remove_empty_dirs_lookup_Some)
    with l1 [of q] have "lookup fs q = Some (File c t)" by (auto split: if_splits)
    then show ?thesis by (auto simp: is_file_lookup)
  qed
  show ?thesis unfolding res using a b by simp
qed

text \<open>
  C6 as stated fails: the sweep below removes one file and returns \<^verbatim>\<open>None\<close>, not the
  number 1.
\<close>

theorem cleanup_returns_none:
  "files_removed example_aged (fst (cleanup_old_backups example_cwd example_root example_aged 604860 example_dir_mtime 7)) = 1 \<and>
   snd (cleanup_old_backups example_cwd example_root example_aged 604860 example_dir_mtime 7) = Inr PyNone \<and>
   snd (cleanup_old_backups example_cwd example_root example_aged 604860 example_dir_mtime 7) \<noteq>
     Inr (PyInt (int (files_removed example_aged (fst (cleanup_old_backups example_cwd example_root example_aged 604860 example_dir_mtime 7)))))"
  by code_simp

theorem cleanup_removes_expired_witness:
  "list_all (\<lambda>p. \<not> is_dir example_aged p) (rglob_backups example_aged (resolve example_cwd (backup_dir example_root))) \<and>
   snd (cleanup_old_backups example_cwd example_root example_aged 604860 example_dir_mtime 7) = Inr PyNone \<and>
   is_file example_aged [''proj'', ''.config_backup'', ''config'', ''build.gradle.kts.backup.20240101_100000''] \<and>
   [''proj'', ''.config_backup'', ''config'', ''build.gradle.kts.backup.20240101_100000''] \<in> set (rglob_backups example_aged (resolve example_cwd (backup_dir example_root))) \<and>
   expired (604860 - of_int (7 * 24 * 60 * 60)) example_aged [''proj'', ''.config_backup'', ''config'', ''build.gradle.kts.backup.20240101_100000''] \<and>
   lookup (fst (cleanup_old_backups example_cwd example_root example_aged 604860 example_dir_mtime 7)) [''proj'', ''.config_backup'', ''config'', ''build.gradle.kts.backup.20240101_100000''] = None \<and>
   is_file example_aged [''proj'', ''.config_backup'', ''config'', ''build.gradle.kts.backup.20240102_100000''] \<and>
   \<not> expired (604860 - of_int (7 * 24 * 60 * 60)) example_aged [''proj'', ''.config_backup'', ''config'', ''build.gradle.kts.backup.20240102_100000''] \<and>
   lookup (fst (cleanup_old_backups example_cwd example_root example_aged 604860 example_dir_mtime 7)) [''proj'', ''.config_backup'', ''config'', ''build.gradle.kts.backup.20240102_100000''] = lookup example_aged [''proj'', ''.config_backup'', ''config'', ''build.gradle.kts.backup.20240102_100000'']"
proof -
  have h0: "list_all (\<lambda>p. \<not> is_dir example_aged p) (rglob_backups example_aged (resolve example_cwd (backup_dir example_root)))"
    by code_simp
  then have h: "\<forall>p\<in>set (rglob_backups example_aged (resolve example_cwd (backup_dir example_root))).
      is_dir example_aged p \<longrightarrow> \<not> example_dir_mtime p < 604860 - of_int (7 * 24 * 60 * 60)"
    by (simp add: list_all_iff)
  have f1: "is_file example_aged [''proj'', ''.config_backup'', ''config'', ''build.gradle.kts.backup.20240101_100000'']" by code_simp
  have m1: "[''proj'', ''.config_backup'', ''config'', ''build.gradle.kts.backup.20240101_100000''] \<in> set (rglob_backups example_aged (resolve example_cwd (backup_dir example_root)))" by code_simp
  have e1: "expired (604860 - of_int (7 * 24 * 60 * 60)) example_aged [''proj'', ''.config_backup'', ''config'', ''build.gradle.kts.backup.20240101_100000'']" by code_simp
  have f2: "is_file example_aged [''proj'', ''.config_backup'', ''config'', ''build.gradle.kts.backup.20240102_100000'']" by code_simp
  have e2: "\<not> expired (604860 - of_int (7 * 24 * 60 * 60)) example_aged [''proj'', ''.config_backup'', ''config'', ''build.gradle.kts.backup.20240102_100000'']" by code_simp
  note a = cleanup_removes_expired [OF h]
  from a have r: "snd (cleanup_old_backups example_cwd example_root example_aged 604860 example_dir_mtime 7) = Inr PyNone" by simp
  from a f1 m1 e1 have g1: "lookup (fst (cleanup_old_backups example_cwd example_root example_aged 604860 example_dir_mtime 7)) [''proj'', ''.config_backup'', ''config'', ''build.gradle.kts.backup.20240101_100000''] = None" by simp
  from a f2 e2 have g2: "lookup (fst (cleanup_old_backups example_cwd example_root example_aged 604860 example_dir_mtime 7)) [''proj'', ''.config_backup'', ''config'', ''build.gradle.kts.backup.20240102_100000''] = lookup example_aged [''proj'', ''.config_backup'', ''config'', ''build.gradle.kts.backup.20240102_100000'']"
    by simp
  show ?thesis using h0 r f1 m1 e1 g1 f2 e2 g2 by simp
qed










end
